theory Spec2Isabelle
  imports Main "HOL-Library.Char_ord" "HOL-Library.List_Lexorder" "HOL-Library.Multiset"
begin

section \<open>Errors\<close>

text \<open>
  Every way in which the two source files can fail is a value of this type:
  the analyzer's \<^verbatim>\<open>throw new Error("analyzer is busy")\<close>, the error handed to the
  callback of the XML parser, the error a resource pool rejects a lookup with, and the
  TypeError JavaScript raises when a property of \<^verbatim>\<open>undefined\<close> is read.
\<close>

datatype error =
    AnalyzerBusy
  | ParseError string
  | PoolError string
  | TypeError

section \<open>Module Info\<close>

text \<open>
  Modelled from the spec: the class ModuleInfo (\<^verbatim>\<open>../resources/ModuleInfo\<close>) is required
  by both source files but is not among them. The data and the three operations the
  sources call are taken from the specification's data model: an insertion-ordered set
  of direct dependency names, each with a conditional flag; a set of implicit
  dependency names; the raw-module flag; the ordered list of nested submodule infos.
  A module never depends on itself (a self-reference is dropped), adding a dependency
  twice is idempotent, the first write sets the conditional flag, a later unconditional
  write clears it and a later conditional write never sets it again.
\<close>

datatype ModuleInfo = ModuleInfo
  (name: string)
  (dependencies: "(string \<times> bool) list")
  (implicitDependencies: "string list")
  (rawModule: bool)
  (subModules: "ModuleInfo list")

text \<open>\<^verbatim>\<open>new ModuleInfo()\<close> followed by the assignment of the name.\<close>

definition ModuleInfo_create :: "string \<Rightarrow> ModuleInfo" where
  "ModuleInfo_create n = ModuleInfo n [] [] False []"

fun writeDependency :: "string \<Rightarrow> bool \<Rightarrow> (string \<times> bool) list \<Rightarrow> (string \<times> bool) list" where
  "writeDependency d c [] = [(d, c)]"
| "writeDependency d c ((d', c') # ds) =
     (if d' = d then (d', c' \<and> c) # ds else (d', c') # writeDependency d c ds)"

fun addDependency :: "string \<Rightarrow> bool \<Rightarrow> ModuleInfo \<Rightarrow> ModuleInfo" where
  "addDependency d c (ModuleInfo n ds im rw subs) =
     (if d = n then ModuleInfo n ds im rw subs
      else ModuleInfo n (writeDependency d c ds) im rw subs)"

fun addImplicitDependency :: "string \<Rightarrow> ModuleInfo \<Rightarrow> ModuleInfo" where
  "addImplicitDependency d (ModuleInfo n ds im rw subs) =
     (if d = n \<or> d \<in> set im then ModuleInfo n ds im rw subs
      else ModuleInfo n ds (im @ [d]) rw subs)"

fun addSubModule :: "ModuleInfo \<Rightarrow> ModuleInfo \<Rightarrow> ModuleInfo" where
  "addSubModule sub (ModuleInfo n ds im rw subs) = ModuleInfo n ds im rw (subs @ [sub])"

text \<open>The assignment \<^verbatim>\<open>bundleInfo.rawModule = true\<close>.\<close>

fun set_rawModule :: "bool \<Rightarrow> ModuleInfo \<Rightarrow> ModuleInfo" where
  "set_rawModule b (ModuleInfo n ds im rw subs) = ModuleInfo n ds im b subs"

text \<open>How a dependency is recorded: absent, unconditional or conditional.\<close>

definition isDependency :: "ModuleInfo \<Rightarrow> string \<Rightarrow> bool" where
  "isDependency i d = (map_of (dependencies i) d \<noteq> None)"

definition isConditionalDependency :: "ModuleInfo \<Rightarrow> string \<Rightarrow> bool" where
  "isConditionalDependency i d = (map_of (dependencies i) d = Some True)"

definition isUnconditionalDependency :: "ModuleInfo \<Rightarrow> string \<Rightarrow> bool" where
  "isUnconditionalDependency i d = (map_of (dependencies i) d = Some False)"

section \<open>Resource pool\<close>

text \<open>
  The pool is a collaborator given by the caller. Both lookups return promises:
  \<^verbatim>\<open>findResource(name)\<close> resolves (the analyzer discards the resource) or rejects (the
  analyzer discards the error), \<^verbatim>\<open>getModuleInfo(name)\<close> resolves to a Module Info or
  rejects with an error.
\<close>

record ResourcePool =
  findResource :: "string \<Rightarrow> bool"
  getModuleInfo :: "string \<Rightarrow> error + ModuleInfo"

text \<open>
  A promise's callbacks run when it settles, never during the call that registered them,
  and nothing in the code decides in which order the lookups of one batch settle: that
  order is whatever happens at run time, and may differ from one call to the next. It
  is a parameter of every run: a list of picks. Each pick names, among the lookups still
  pending (counted in the order they were issued, modulo their number), the one that
  settles next; when the picks run out, the rest settle in the order issued. Every list
  of picks gives an order, and every order is given by some list of picks.
\<close>

fun settleOrder :: "nat list \<Rightarrow> 'a list \<Rightarrow> 'a list" where
  "settleOrder picks [] = []"
| "settleOrder [] (x # xs) = x # xs"
| "settleOrder (p # picks) (x # xs) =
     (let k = p mod length (x # xs)
      in (x # xs) ! k # settleOrder picks (take k (x # xs) @ drop (Suc k) (x # xs)))"

section \<open>Bundle definitions and their resolved form\<close>

text \<open>
  Modelled from the spec: \<^verbatim>\<open>SectionType\<close> and the bundle definition come from
  \<^verbatim>\<open>./BundleDefinition\<close>, which is not among the sources; the four modes are those of
  the specification. Of a section definition only \<^verbatim>\<open>mode\<close> is read here.
\<close>

datatype SectionType = Provided | Raw | Require | Preload

record SectionDefinition =
  mode :: SectionType

record BundleDefinition =
  name :: string
  sections :: "SectionDefinition list"

text \<open>
  Arrays of module names are JavaScript objects: \<^verbatim>\<open>slice()\<close> makes a new one and
  \<^verbatim>\<open>sort()\<close> changes the one it is called on. They live in a store and are named by
  their index in it. The class \<^verbatim>\<open>ResolvedSection\<close> has no \<^verbatim>\<open>modules\<close> of its own: the
  property is assigned from outside after construction, so it is optional here, and a
  reference that names no array of the store reads as \<^verbatim>\<open>undefined\<close> as well.
\<close>

type_synonym store = "string list list"

definition deref :: "store \<Rightarrow> nat option \<Rightarrow> string list option" where
  "deref h r = (case r of None \<Rightarrow> None
                | Some a \<Rightarrow> if a < length h then Some (h ! a) else None)"

definition slice :: "store \<Rightarrow> nat \<Rightarrow> nat \<times> store" where
  "slice h a = (length h, h @ [h ! a])"

definition sort_in_place :: "store \<Rightarrow> nat \<Rightarrow> store" where
  "sort_in_place h a = h[a := sort (h ! a)]"

record ResolvedSection =
  sectionDefinition :: SectionDefinition
  modules :: "nat option"

definition ResolvedSection_mode :: "ResolvedSection \<Rightarrow> SectionType" where
  "ResolvedSection_mode s = mode (sectionDefinition s)"

record ResolvedBundleDefinition =
  bundleDefinition :: BundleDefinition
  name :: string
  sections :: "ResolvedSection list"

text \<open>The constructor of \<^verbatim>\<open>ResolvedBundleDefinition\<close>.\<close>

definition ResolvedBundleDefinition_new :: "BundleDefinition \<Rightarrow> ResolvedBundleDefinition" where
  "ResolvedBundleDefinition_new bd =
     \<lparr> bundleDefinition = bd,
       name = BundleDefinition.name bd,
       sections = map (\<lambda>sd. \<lparr> sectionDefinition = sd, modules = None \<rparr>)
                      (BundleDefinition.sections bd) \<rparr>"

text \<open>
  Modelled from the spec: the two sentinel module names come from
  \<^verbatim>\<open>../UI5ClientConstants\<close>, which is not among the sources; they are parameters.
\<close>

record UI5ClientConstants =
  MODULE__SAP_UI_CORE_CORE :: string
  MODULE__JQUERY_SAP_GLOBAL :: string

subsection \<open>Derived queries\<close>

text \<open>
  \<^verbatim>\<open>Array.prototype.some\<close> with a callback that may throw: the sections are visited in
  order, the first \<^verbatim>\<open>true\<close> ends the search, and an exception ends it as well.
\<close>

fun some_section :: "(ResolvedSection \<Rightarrow> error + bool) \<Rightarrow> ResolvedSection list \<Rightarrow> error + bool" where
  "some_section p [] = Inr False"
| "some_section p (s # ss) =
     (case p s of
        Inl e \<Rightarrow> Inl e
      | Inr b \<Rightarrow> if b then Inr True else some_section p ss)"

definition lists_module :: "store \<Rightarrow> ResolvedSection \<Rightarrow> string \<Rightarrow> error + bool" where
  "lists_module h s m =
     (case deref h (modules s) of
        None \<Rightarrow> Inl TypeError
      | Some ms \<Rightarrow> Inr (list_ex (\<lambda>module. module = m) ms))"

definition containsCore :: "UI5ClientConstants \<Rightarrow> store \<Rightarrow> ResolvedBundleDefinition \<Rightarrow> error + bool" where
  "containsCore consts h b =
     some_section
       (\<lambda>section.
          if ResolvedSection_mode section = Raw \<or> ResolvedSection_mode section = Require
          then lists_module h section (MODULE__SAP_UI_CORE_CORE consts)
          else Inr False)
       (sections b)"

definition containsGlobal :: "UI5ClientConstants \<Rightarrow> store \<Rightarrow> ResolvedBundleDefinition \<Rightarrow> error + bool" where
  "containsGlobal consts h b =
     some_section
       (\<lambda>section.
          if ResolvedSection_mode section = Raw
          then lists_module h section (MODULE__JQUERY_SAP_GLOBAL consts)
          else Inr False)
       (sections b)"

definition executes :: "store \<Rightarrow> ResolvedBundleDefinition \<Rightarrow> string \<Rightarrow> error + bool" where
  "executes h b moduleName =
     some_section
       (\<lambda>section.
          if ResolvedSection_mode section = Raw \<or> ResolvedSection_mode section = Require
          then lists_module h section moduleName
          else Inr False)
       (sections b)"

subsection \<open>createModuleInfo\<close>

text \<open>
  The state of one call: the Module Info under construction, the store of arrays, the
  names \<^verbatim>\<open>pool.getModuleInfo\<close> was called with (in call order), and the rejection of
  the promise chain, if any. Each section's callback is chained with \<^verbatim>\<open>then\<close> on the
  promise of the section before it, so it runs only after that promise is fulfilled and
  is skipped once the chain is rejected.
\<close>

record resolution =
  bundleInfo :: ModuleInfo
  heap :: store
  requested :: "string list"
  rejection :: "error option"

text \<open>
  One settled \<^verbatim>\<open>pool.getModuleInfo(submodule)\<close>: on success its \<^verbatim>\<open>then\<close> callback adds
  the submodule; the first failure rejects the \<^verbatim>\<open>Promise.all\<close> of the section.
\<close>

definition settle_getModuleInfo :: "ResourcePool \<Rightarrow> resolution \<Rightarrow> string \<Rightarrow> resolution" where
  "settle_getModuleInfo pool r submodule =
     (case getModuleInfo pool submodule of
        Inr subinfo \<Rightarrow> r\<lparr> bundleInfo := addSubModule subinfo (bundleInfo r) \<rparr>
      | Inl e \<Rightarrow> (case rejection r of None \<Rightarrow> r\<lparr> rejection := Some e \<rparr> | Some _ \<Rightarrow> r))"

text \<open>
  \<^verbatim>\<open>Promise.all(modules.map(...))\<close>: all lookups are issued, in the order of the array;
  their callbacks run in the order in which the lookups settle (\<open>picks\<close>).
\<close>

definition fetchAll :: "ResourcePool \<Rightarrow> nat list \<Rightarrow> string list \<Rightarrow> resolution \<Rightarrow> resolution" where
  "fetchAll pool picks ms r =
     foldl (settle_getModuleInfo pool)
       (r\<lparr> requested := requested r @ ms \<rparr>)
       (settleOrder picks ms)"

text \<open>
  The callback chained for one section; \<open>picks\<close> is the order in which the lookups of
  this section settle (it matters for a Raw or Preload section only).
\<close>

definition processSection ::
  "ResourcePool \<Rightarrow> nat list \<Rightarrow> resolution \<Rightarrow> ResolvedSection \<Rightarrow> resolution" where
  "processSection pool picks r section =
     (if rejection r \<noteq> None then r
      else if ResolvedSection_mode section = Provided then r
      else if ResolvedSection_mode section = Require then
        (case deref (heap r) (modules section) of
           None \<Rightarrow> r\<lparr> rejection := Some TypeError \<rparr>
         | Some ms \<Rightarrow>
             r\<lparr> bundleInfo := foldl (\<lambda>i module. addDependency module False i) (bundleInfo r) ms \<rparr>)
      else
        (case modules section of
           None \<Rightarrow> r\<lparr> rejection := Some TypeError \<rparr>
         | Some a \<Rightarrow>
             if \<not> a < length (heap r) then r\<lparr> rejection := Some TypeError \<rparr>
             else
               let r1 = (if ResolvedSection_mode section = Raw \<and> length (heap r ! a) \<noteq> 0
                         then r\<lparr> bundleInfo := set_rawModule True (bundleInfo r) \<rparr>
                         else r);
                   (modules', h') =
                        (if ResolvedSection_mode section = Preload
                         then (let (copy, h1) = slice (heap r1) a
                               in (copy, sort_in_place h1 copy))
                         else (a, heap r1))
               in fetchAll pool picks (h' ! modules') (r1\<lparr> heap := h' \<rparr>)))"

text \<open>
  The timing of a run gives the picks of each section, the first element for the first
  section and so on (none left: the lookups settle in the order issued).
\<close>

definition nextPicks :: "nat list list \<Rightarrow> nat list" where
  "nextPicks timing = (case timing of [] \<Rightarrow> [] | picks # _ \<Rightarrow> picks)"

text \<open>
  \<^verbatim>\<open>this.sections.forEach\<close> building the chain: the sections in declared order, each
  on the state the one before it has left.
\<close>

fun resolveSections ::
  "ResourcePool \<Rightarrow> nat list list \<Rightarrow> resolution \<Rightarrow> ResolvedSection list \<Rightarrow> resolution" where
  "resolveSections pool timing r [] = r"
| "resolveSections pool timing r (section # ss) =
     resolveSections pool (tl timing)
       (processSection pool (nextPicks timing) r section) ss"

text \<open>
  The state in which the chain starts: \<^verbatim>\<open>new ModuleInfo()\<close> with the bundle's name,
  no lookup issued yet, and \<^verbatim>\<open>Promise.resolve(true)\<close>.
\<close>

definition createModuleInfo_start :: "store \<Rightarrow> ResolvedBundleDefinition \<Rightarrow> resolution" where
  "createModuleInfo_start h b =
     \<lparr> bundleInfo = ModuleInfo_create (name b), heap = h, requested = [], rejection = None \<rparr>"

definition createModuleInfo_run ::
  "ResourcePool \<Rightarrow> nat list list \<Rightarrow> store \<Rightarrow> ResolvedBundleDefinition \<Rightarrow> resolution" where
  "createModuleInfo_run pool timing h b =
     resolveSections pool timing (createModuleInfo_start h b) (sections b)"

text \<open>What the returned promise settles with: the bundle's Module Info or the rejection.\<close>

definition createModuleInfo ::
  "ResourcePool \<Rightarrow> nat list list \<Rightarrow> store \<Rightarrow> ResolvedBundleDefinition \<Rightarrow> error + ModuleInfo" where
  "createModuleInfo pool timing h b =
     (let r = createModuleInfo_run pool timing h b
      in case rejection r of None \<Rightarrow> Inr (bundleInfo r) | Some e \<Rightarrow> Inl e)"

section \<open>Markup nodes\<close>

text \<open>
  The tree the XML parser hands over (options \<^verbatim>\<open>explicitChildren\<close>,
  \<^verbatim>\<open>preserveChildrenOrder\<close>, \<^verbatim>\<open>xmlns\<close>): \<^verbatim>\<open>node.$ns.uri\<close> (possibly absent),
  \<^verbatim>\<open>node.$ns.local\<close>, the attributes \<^verbatim>\<open>node.$\<close> with their values, and the ordered
  children \<^verbatim>\<open>node.$$\<close> (no array when the list is empty).
\<close>

datatype node = Node
  (ns_uri: "string option")
  (ns_local: string)
  (attributes: "(string \<times> string) list")
  (children: "node list")

definition XHTML_NAMESPACE :: string where
  "XHTML_NAMESPACE = ''http://www.w3.org/1999/xhtml''"

definition SVG_NAMESPACE :: string where
  "SVG_NAMESPACE = ''http://www.w3.org/2000/svg''"

definition TEMPLATING_NAMESPACE :: string where
  "TEMPLATING_NAMESPACE = ''http://schemas.sap.com/sapui5/extension/sap.ui.core.template/1''"

text \<open>\<^verbatim>\<open>/^(?:if|repeat)$/\<close>\<close>

definition TEMPLATING_CONDITONAL_TAGS :: "string \<Rightarrow> bool" where
  "TEMPLATING_CONDITONAL_TAGS localName = (localName = ''if'' \<or> localName = ''repeat'')"

text \<open>
  \<^verbatim>\<open>/^([a-zA-Z_$][a-zA-z0-9_$]*(\.[a-zA-Z_$][a-zA-z0-9_$]*)*)$/\<close>: segments separated
  by dots. The second character class is written \<^verbatim>\<open>A-z\<close> in the source, so it also
  holds the six characters between \<^verbatim>\<open>Z\<close> and \<^verbatim>\<open>a\<close>. No class holds the dot, so the
  expression matches in one way only and is decided from left to right.
\<close>

definition segmentStart :: "char \<Rightarrow> bool" where
  "segmentStart c =
     ((CHR ''a'' \<le> c \<and> c \<le> CHR ''z'') \<or> (CHR ''A'' \<le> c \<and> c \<le> CHR ''Z'')
      \<or> c = CHR ''_'' \<or> c = CHR ''$'')"

definition segmentPart :: "char \<Rightarrow> bool" where
  "segmentPart c =
     ((CHR ''a'' \<le> c \<and> c \<le> CHR ''z'') \<or> (CHR ''A'' \<le> c \<and> c \<le> CHR ''z'')
      \<or> (CHR ''0'' \<le> c \<and> c \<le> CHR ''9'') \<or> c = CHR ''_'' \<or> c = CHR ''$'')"

fun matchSegment :: "string \<Rightarrow> bool" and matchParts :: "string \<Rightarrow> bool" where
  "matchSegment [] = False"
| "matchSegment (c # cs) = (segmentStart c \<and> matchParts cs)"
| "matchParts [] = True"
| "matchParts (c # cs) =
     (if c = CHR ''.'' then matchSegment cs
      else if segmentPart c then matchParts cs
      else False)"

definition PATTERN_LIBRARY_NAMESPACES :: "string \<Rightarrow> bool" where
  "PATTERN_LIBRARY_NAMESPACES namespace = matchSegment namespace"

definition COMPONENTCONTAINER_MODULE :: string where
  "COMPONENTCONTAINER_MODULE = ''sap/ui/core/ComponentContainer.js''"

definition COMPONENTCONTAINER_COMPONENTNAME_ATTRIBUTE :: string where
  "COMPONENTCONTAINER_COMPONENTNAME_ATTRIBUTE = ''name''"

definition FRAGMENTDEFINITION_MODULE :: string where
  "FRAGMENTDEFINITION_MODULE = ''sap/ui/core/FragmentDefinition.js''"

definition FRAGMENT_MODULE :: string where
  "FRAGMENT_MODULE = ''sap/ui/core/Fragment.js''"

definition FRAGMENT_FRAGMENTNAME_ATTRIBUTE :: string where
  "FRAGMENT_FRAGMENTNAME_ATTRIBUTE = ''fragmentName''"

definition FRAGMENT_TYPE_ATTRIBUTE :: string where
  "FRAGMENT_TYPE_ATTRIBUTE = ''type''"

definition HTMLVIEW_MODULE :: string where
  "HTMLVIEW_MODULE = ''sap/ui/core/mvc/HTMLView.js''"

definition JSVIEW_MODULE :: string where
  "JSVIEW_MODULE = ''sap/ui/core/mvc/JSView.js''"

definition JSONVIEW_MODULE :: string where
  "JSONVIEW_MODULE = ''sap/ui/core/mvc/JSONView.js''"

definition XMLVIEW_MODULE :: string where
  "XMLVIEW_MODULE = ''sap/ui/core/mvc/XMLView.js''"

definition ANYVIEW_VIEWNAME_ATTRIBUTE :: string where
  "ANYVIEW_VIEWNAME_ATTRIBUTE = ''viewName''"

definition XMLVIEW_CONTROLLERNAME_ATTRIBUTE :: string where
  "XMLVIEW_CONTROLLERNAME_ATTRIBUTE = ''controllerName''"

definition XMLVIEW_RESBUNDLENAME_ATTRIBUTE :: string where
  "XMLVIEW_RESBUNDLENAME_ATTRIBUTE = ''resourceBundleName''"

text \<open>
  \<^verbatim>\<open>(node.$ && node.$[attr] && node.$[attr].value) || null\<close>: a missing attribute and
  an empty value both give \<^verbatim>\<open>null\<close>.
\<close>

definition getAttribute :: "node \<Rightarrow> string \<Rightarrow> string option" where
  "getAttribute node attr =
     (case map_of (attributes node) attr of
        None \<Rightarrow> None
      | Some v \<Rightarrow> if v = [] then None else Some v)"

text \<open>\<^verbatim>\<open>String.prototype.toLowerCase\<close>, on the letters A to Z.\<close>

definition toLowerCase :: "string \<Rightarrow> string" where
  "toLowerCase s =
     map (\<lambda>c. if CHR ''A'' \<le> c \<and> c \<le> CHR ''Z'' then char_of (of_char c + (32::nat)) else c) s"

definition getFragmentExtension :: "string \<Rightarrow> string" where
  "getFragmentExtension type = ''.fragment.'' @ toLowerCase type"

section \<open>XMLTemplateAnalyzer\<close>

text \<open>
  What the analyzer is given and never changes: the XML parser (an external library,
  here its result for each text), the module naming function
  \<^verbatim>\<open>ModuleName.fromUI5LegacyName(name, suffix)\<close> (from \<^verbatim>\<open>../utils/ModuleName\<close>, which is
  not among the sources, so it is a parameter) and the resource pool.
\<close>

record environment =
  parseString :: "string \<Rightarrow> error + node"
  fromUI5LegacyName :: "string \<Rightarrow> string option \<Rightarrow> string"
  pool :: ResourcePool

text \<open>
  The fields of an instance that change: \<^verbatim>\<open>this.info\<close>, \<^verbatim>\<open>this.conditional\<close>,
  \<^verbatim>\<open>this.promises\<close> and \<^verbatim>\<open>this.busy\<close>. A pending promise is the lookup it waits for:
  the module name \<^verbatim>\<open>findResource\<close> was called with and the node whose attributes the
  callback reads. The constructor sets \<^verbatim>\<open>busy\<close> only; the other three are assigned at
  the start of every analysis, before anything reads them.
\<close>

record XMLTemplateAnalyzer =
  info :: ModuleInfo
  conditional :: bool
  promises :: "(string \<times> node) list"
  busy :: bool

text \<open>\<^verbatim>\<open>_addDependency\<close>: the flag is the value of \<^verbatim>\<open>this.conditional\<close> when it runs.\<close>

definition analyzer_addDependency :: "string \<Rightarrow> XMLTemplateAnalyzer \<Rightarrow> XMLTemplateAnalyzer" where
  "analyzer_addDependency moduleName a =
     (if ModuleInfo.name (info a) = moduleName then a
      else a\<lparr> info := addDependency moduleName (conditional a) (info a) \<rparr>)"

text \<open>
  The callback registered with \<^verbatim>\<open>then\<close> on \<^verbatim>\<open>findResource(moduleName)\<close>, run when the
  pool has found the resource.
\<close>

definition addReferenced ::
  "environment \<Rightarrow> node \<Rightarrow> string \<Rightarrow> string \<Rightarrow> XMLTemplateAnalyzer \<Rightarrow> XMLTemplateAnalyzer" where
  "addReferenced env node attr suffix a =
     (case getAttribute node attr of
        None \<Rightarrow> a
      | Some n \<Rightarrow> analyzer_addDependency (fromUI5LegacyName env n (Some suffix)) a)"

definition onResourceFound ::
  "environment \<Rightarrow> string \<Rightarrow> node \<Rightarrow> XMLTemplateAnalyzer \<Rightarrow> XMLTemplateAnalyzer" where
  "onResourceFound env moduleName node a =
     (let a1 = analyzer_addDependency moduleName a
      in if moduleName = COMPONENTCONTAINER_MODULE then
           addReferenced env node COMPONENTCONTAINER_COMPONENTNAME_ATTRIBUTE ''/Component.js'' a1
         else if moduleName = FRAGMENT_MODULE then
           (case (getAttribute node FRAGMENT_FRAGMENTNAME_ATTRIBUTE,
                  getAttribute node FRAGMENT_TYPE_ATTRIBUTE) of
              (Some fragmentName, Some type) \<Rightarrow>
                analyzer_addDependency
                  (fromUI5LegacyName env fragmentName (Some (getFragmentExtension type))) a1
            | _ \<Rightarrow> a1)
         else if moduleName = HTMLVIEW_MODULE then
           addReferenced env node ANYVIEW_VIEWNAME_ATTRIBUTE ''.view.html'' a1
         else if moduleName = JSVIEW_MODULE then
           addReferenced env node ANYVIEW_VIEWNAME_ATTRIBUTE ''.view.js'' a1
         else if moduleName = JSONVIEW_MODULE then
           addReferenced env node ANYVIEW_VIEWNAME_ATTRIBUTE ''.view.json'' a1
         else if moduleName = XMLVIEW_MODULE then
           addReferenced env node ANYVIEW_VIEWNAME_ATTRIBUTE ''.view.xml'' a1
         else a1)"

text \<open>
  A settled lookup: the first callback when the pool found the resource, the second
  (which does nothing) when it did not.
\<close>

definition settle_findResource ::
  "environment \<Rightarrow> XMLTemplateAnalyzer \<Rightarrow> string \<times> node \<Rightarrow> XMLTemplateAnalyzer" where
  "settle_findResource env a p =
     (if findResource (pool env) (fst p) then onResourceFound env (fst p) (snd p) a else a)"

text \<open>
  \<^verbatim>\<open>_analyzeNode\<close> and \<^verbatim>\<open>_analyzeChildren\<close> (an identifier cannot start with an
  underscore here, so the methods are named without it); \<open>analyzeNodes\<close> is the
  \<^verbatim>\<open>forEach\<close> over the children. The traversal is synchronous: it only issues the
  lookups and pushes their promises; no callback runs before it returns.
\<close>

fun analyzeNode :: "environment \<Rightarrow> node \<Rightarrow> XMLTemplateAnalyzer \<Rightarrow> XMLTemplateAnalyzer"
and analyzeNodes :: "environment \<Rightarrow> node list \<Rightarrow> XMLTemplateAnalyzer \<Rightarrow> XMLTemplateAnalyzer" where
  "analyzeNode env (Node uri localName attrs cs) a =
     (let namespace = (case uri of None \<Rightarrow> [] | Some u \<Rightarrow> u);
          oldConditional = conditional a;
          a1 = (if namespace = TEMPLATING_NAMESPACE then
                  (if TEMPLATING_CONDITONAL_TAGS localName then a\<lparr> conditional := True \<rparr> else a)
                else if namespace = XHTML_NAMESPACE \<or> namespace = SVG_NAMESPACE then a
                else if PATTERN_LIBRARY_NAMESPACES namespace then
                  (let moduleName =
                         fromUI5LegacyName env
                           ((if namespace \<noteq> [] then namespace @ ''.'' else []) @ localName) None
                   in if FRAGMENTDEFINITION_MODULE \<noteq> moduleName
                      then a\<lparr> promises := promises a @ [(moduleName, Node uri localName attrs cs)] \<rparr>
                      else a)
                else a);
          a2 = analyzeNodes env cs a1
      in a2\<lparr> conditional := oldConditional \<rparr>)"
| "analyzeNodes env [] a = a"
| "analyzeNodes env (child # cs) a = analyzeNodes env cs (analyzeNode env child a)"

definition analyzeChildren :: "environment \<Rightarrow> node \<Rightarrow> XMLTemplateAnalyzer \<Rightarrow> XMLTemplateAnalyzer" where
  "analyzeChildren env node a = analyzeNodes env (children node) a"

definition analyzeViewRootNode :: "environment \<Rightarrow> node \<Rightarrow> XMLTemplateAnalyzer \<Rightarrow> XMLTemplateAnalyzer" where
  "analyzeViewRootNode env node a =
     (let a1 = a\<lparr> info := addImplicitDependency XMLVIEW_MODULE (info a) \<rparr>;
          a2 = addReferenced env node XMLVIEW_CONTROLLERNAME_ATTRIBUTE ''.controller.js'' a1;
          a3 = addReferenced env node XMLVIEW_RESBUNDLENAME_ATTRIBUTE ''.properties'' a2
      in analyzeChildren env node a3)"

text \<open>
  \<^verbatim>\<open>_analyze\<close> in two parts. The first is what the call does before it returns: the
  busy check, the assignments, the parse (the parser calls back before \<^verbatim>\<open>parseString\<close>
  returns) and the whole traversal. It throws, or returns a promise that is already
  rejected, or returns a pending promise and leaves the instance busy. The second is
  what happens afterwards: the lookups settle in some order (\<open>picks\<close>), each runs its
  callback on the instance as it is then, and when all have settled the instance is
  freed and the promise resolved with the Module Info.
\<close>

datatype promise = Thrown error | Rejected error | Pending | Resolved ModuleInfo

definition analyze_begin ::
  "environment \<Rightarrow> string \<Rightarrow> ModuleInfo \<Rightarrow> bool \<Rightarrow> XMLTemplateAnalyzer \<Rightarrow> promise \<times> XMLTemplateAnalyzer" where
  "analyze_begin env xml i isFragment a =
     (if busy a then (Thrown AnalyzerBusy, a)
      else
        let a1 = a\<lparr> info := i, conditional := False, promises := [], busy := True \<rparr>
        in case parseString env xml of
             Inl err \<Rightarrow> (Rejected err, a1\<lparr> busy := False \<rparr>)
           | Inr result \<Rightarrow>
               (Pending,
                if isFragment
                then analyzeNode env result
                       (a1\<lparr> info := addImplicitDependency FRAGMENT_MODULE (info a1) \<rparr>)
                else analyzeViewRootNode env result a1))"

definition analyze_settle ::
  "environment \<Rightarrow> nat list \<Rightarrow> XMLTemplateAnalyzer \<Rightarrow> promise \<times> XMLTemplateAnalyzer" where
  "analyze_settle env picks a =
     (let a' = foldl (settle_findResource env) a (settleOrder picks (promises a))
      in (Resolved (info a'), a'\<lparr> busy := False \<rparr>))"

definition analyze ::
  "environment \<Rightarrow> nat list \<Rightarrow> string \<Rightarrow> ModuleInfo \<Rightarrow> bool \<Rightarrow> XMLTemplateAnalyzer
     \<Rightarrow> promise \<times> XMLTemplateAnalyzer" where
  "analyze env picks xml i isFragment a =
     (case analyze_begin env xml i isFragment a of
        (Pending, a') \<Rightarrow> analyze_settle env picks a'
      | settled \<Rightarrow> settled)"

definition analyzeView ::
  "environment \<Rightarrow> nat list \<Rightarrow> string \<Rightarrow> ModuleInfo \<Rightarrow> XMLTemplateAnalyzer
     \<Rightarrow> promise \<times> XMLTemplateAnalyzer" where
  "analyzeView env picks xml i a = analyze env picks xml i False a"

definition analyzeFragment ::
  "environment \<Rightarrow> nat list \<Rightarrow> string \<Rightarrow> ModuleInfo \<Rightarrow> XMLTemplateAnalyzer
     \<Rightarrow> promise \<times> XMLTemplateAnalyzer" where
  "analyzeFragment env picks xml i a = analyze env picks xml i True a"

section \<open>Vocabulary of the statements\<close>

text \<open>The module names a section lists in a given store (none when it has no array).\<close>

definition listed :: "store \<Rightarrow> ResolvedSection \<Rightarrow> string list" where
  "listed h s = (case deref h (modules s) of None \<Rightarrow> [] | Some ms \<Rightarrow> ms)"

text \<open>The Module Infos the pool delivers for a list of names, and its first failure.\<close>

fun fetched :: "ResourcePool \<Rightarrow> string list \<Rightarrow> ModuleInfo list" where
  "fetched rp [] = []"
| "fetched rp (m # ms) =
     (case getModuleInfo rp m of Inr i \<Rightarrow> i # fetched rp ms | Inl e \<Rightarrow> fetched rp ms)"

fun firstFailure :: "ResourcePool \<Rightarrow> string list \<Rightarrow> error option" where
  "firstFailure rp [] = None"
| "firstFailure rp (m # ms) =
     (case getModuleInfo rp m of Inr i \<Rightarrow> firstFailure rp ms | Inl e \<Rightarrow> Some e)"

text \<open>
  What a section contributes when everything it fetches is found: the lookups it issues
  (a Raw section its list as declared, a Preload section its list sorted, the others
  none), the modules it requires, and, for a whole list of sections with the timing of
  the run, the submodules attached: section by section in declared order, within a
  section in the order the lookups settle.
\<close>

definition issued :: "store \<Rightarrow> ResolvedSection \<Rightarrow> string list" where
  "issued h s =
     (if ResolvedSection_mode s = Raw then listed h s
      else if ResolvedSection_mode s = Preload then sort (listed h s)
      else [])"

definition required :: "store \<Rightarrow> ResolvedSection \<Rightarrow> string list" where
  "required h s = (if ResolvedSection_mode s = Require then listed h s else [])"

fun attached :: "ResourcePool \<Rightarrow> store \<Rightarrow> nat list list \<Rightarrow> ResolvedSection list \<Rightarrow> ModuleInfo list" where
  "attached rp h timing [] = []"
| "attached rp h timing (s # ss) =
     fetched rp (settleOrder (nextPicks timing) (issued h s))
     @ attached rp h (tl timing) ss"

text \<open>
  The direct dependencies of a Module Info named \<open>n\<close> after each of the modules has been
  added once, without the conditional flag, to none.
\<close>

definition requiredDependencies :: "string \<Rightarrow> string list \<Rightarrow> (string \<times> bool) list" where
  "requiredDependencies n ms =
     foldl (\<lambda>ds m. if m = n then ds else writeDependency m False ds) [] ms"

text \<open>
  Two sections, each in its store, that differ at most in the declared order of a
  Preload list: same mode, both with an array, and the same names (counted with
  multiplicity) for Preload, the same list otherwise.
\<close>

definition same_members :: "store \<Rightarrow> store \<Rightarrow> ResolvedSection \<Rightarrow> ResolvedSection \<Rightarrow> bool" where
  "same_members h h' s s' =
     (ResolvedSection_mode s = ResolvedSection_mode s'
      \<and> (case (deref h (modules s), deref h' (modules s')) of
            (Some ms, Some ms') \<Rightarrow>
               if ResolvedSection_mode s = Preload then mset ms = mset ms' else ms = ms'
          | _ \<Rightarrow> False))"

text \<open>
  The module name a node is a candidate for, by the tests of \<^verbatim>\<open>_analyzeNode\<close>, and the
  lookups a whole subtree gives rise to, parents before children, siblings in order.
\<close>

definition candidateModule :: "environment \<Rightarrow> node \<Rightarrow> string option" where
  "candidateModule env n =
     (let namespace = (case ns_uri n of None \<Rightarrow> [] | Some u \<Rightarrow> u);
          moduleName = fromUI5LegacyName env (namespace @ ''.'' @ ns_local n) None
      in if namespace \<noteq> TEMPLATING_NAMESPACE \<and> namespace \<noteq> XHTML_NAMESPACE
            \<and> namespace \<noteq> SVG_NAMESPACE \<and> PATTERN_LIBRARY_NAMESPACES namespace
            \<and> moduleName \<noteq> FRAGMENTDEFINITION_MODULE
         then Some moduleName else None)"

fun lookups :: "environment \<Rightarrow> node \<Rightarrow> (string \<times> node) list" where
  "lookups env (Node uri localName attrs cs) =
     (case candidateModule env (Node uri localName attrs cs) of
        None \<Rightarrow> []
      | Some m \<Rightarrow> [(m, Node uri localName attrs cs)])
     @ concat (map (lookups env) cs)"

text \<open>The lookups, among those given, that the pool answers with success.\<close>

definition found :: "environment \<Rightarrow> (string \<times> node) list \<Rightarrow> (string \<times> node) list" where
  "found env ps = filter (\<lambda>p. findResource (pool env) (fst p)) ps"

section \<open>Example inputs\<close>

definition section_of :: "SectionType \<Rightarrow> nat \<Rightarrow> ResolvedSection" where
  "section_of m a = \<lparr> sectionDefinition = \<lparr> mode = m \<rparr>, modules = Some a \<rparr>"

definition bundle_of :: "string \<Rightarrow> ResolvedSection list \<Rightarrow> ResolvedBundleDefinition" where
  "bundle_of n ss =
     \<lparr> bundleDefinition = \<lparr> BundleDefinition.name = n, sections = map sectionDefinition ss \<rparr>,
       name = n, sections = ss \<rparr>"

definition ex_constants :: UI5ClientConstants where
  "ex_constants = \<lparr> MODULE__SAP_UI_CORE_CORE = ''sap/ui/core/Core.js'',
                    MODULE__JQUERY_SAP_GLOBAL = ''jquery.sap.global.js'' \<rparr>"

definition ex_store :: store where
  "ex_store = [[''jquery.sap.global.js''],
               [''sap/ui/core/Core.js'', ''my/App.js''],
               [''my/lib.js'', ''my/Helper.js''],
               [''my/Helper.js'', ''my/lib.js''],
               [''my/raw2.js'', ''my/raw1.js''],
               []]"

text \<open>
  A pool that knows every module, and one that does not know \<^verbatim>\<open>my/lib.js\<close>.
\<close>

definition ex_pool :: ResourcePool where
  "ex_pool = \<lparr> findResource = (\<lambda>n. True),
               getModuleInfo = (\<lambda>n. Inr (ModuleInfo_create n)) \<rparr>"

definition ex_pool_missing :: ResourcePool where
  "ex_pool_missing =
     ex_pool\<lparr> getModuleInfo :=
                (\<lambda>n. if n = ''my/lib.js'' then Inl (PoolError ''resource not found in pool'')
                     else Inr (ModuleInfo_create n)) \<rparr>"

text \<open>
  Two timings of a run: every lookup settles in the order issued; in the third section
  the second lookup settles first. And one for a bundle whose first section fetches: its
  second lookup settles first.
\<close>

definition ex_in_order :: "nat list list" where
  "ex_in_order = []"

definition ex_second_first :: "nat list list" where
  "ex_second_first = [[], [], [1]]"

definition ex_raw_second_first :: "nat list list" where
  "ex_raw_second_first = [[1]]"

definition ex_bundle :: ResolvedBundleDefinition where
  "ex_bundle = bundle_of ''my/bundle.js''
                 [section_of Provided 0, section_of Require 1, section_of Preload 2]"

definition ex_bundle_reordered :: ResolvedBundleDefinition where
  "ex_bundle_reordered = bundle_of ''my/bundle.js''
                 [section_of Provided 0, section_of Require 1, section_of Preload 3]"

definition ex_bundle_raw :: ResolvedBundleDefinition where
  "ex_bundle_raw = bundle_of ''my/raw-bundle.js'' [section_of Raw 4, section_of Require 1]"

definition ex_bundle_empty_raw :: ResolvedBundleDefinition where
  "ex_bundle_empty_raw = bundle_of ''my/bundle.js'' [section_of Raw 5, section_of Preload 2]"

text \<open>A bundle that requires, among others, the module it is itself.\<close>

definition ex_bundle_self :: ResolvedBundleDefinition where
  "ex_bundle_self = bundle_of ''my/App.js'' [section_of Require 1]"

text \<open>A bundle with a section after the Preload section, and one that only requires.\<close>

definition ex_bundle_then_raw :: ResolvedBundleDefinition where
  "ex_bundle_then_raw = bundle_of ''my/bundle.js'' [section_of Preload 2, section_of Raw 4]"

definition ex_bundle_requires :: ResolvedBundleDefinition where
  "ex_bundle_requires = bundle_of ''my/bundle.js'' [section_of Provided 0, section_of Require 2]"

text \<open>
  Modelled from the spec: an instance of the naming function for the examples (the
  function itself is a parameter of the analyzer): the dots of the logical name become
  slashes and the extension, \<^verbatim>\<open>.js\<close> when none is given, is appended.
\<close>

definition legacyName :: "string \<Rightarrow> string option \<Rightarrow> string" where
  "legacyName n suffix =
     map (\<lambda>c. if c = CHR ''.'' then CHR ''/'' else c) n
     @ (case suffix of None \<Rightarrow> ''.js'' | Some e \<Rightarrow> e)"

text \<open>
  An instance between two analyses, as the constructor leaves it (\<^verbatim>\<open>busy\<close> is false;
  the other fields are assigned before they are read).
\<close>

definition idle_analyzer :: XMLTemplateAnalyzer where
  "idle_analyzer =
     \<lparr> info = ModuleInfo_create [], conditional = False, promises = [], busy = False \<rparr>"

text \<open>
  A fragment whose root is the FragmentDefinition tag, holding a templating \<^verbatim>\<open>if\<close> that
  wraps a Button, and the same fragment with a second Button beside the \<^verbatim>\<open>if\<close>.
\<close>

definition ex_button :: node where
  "ex_button = Node (Some ''sap.m'') ''Button'' [(''text'', ''OK'')] []"

definition ex_if :: node where
  "ex_if = Node (Some TEMPLATING_NAMESPACE) ''if'' [(''test'', ''{meta>visible}'')] [ex_button]"

definition ex_fragment :: node where
  "ex_fragment = Node (Some ''sap.ui.core'') ''FragmentDefinition'' [] [ex_if]"

definition ex_fragment_both :: node where
  "ex_fragment_both = Node (Some ''sap.ui.core'') ''FragmentDefinition'' [] [ex_if, ex_button]"

definition ex_parseString :: "string \<Rightarrow> error + node" where
  "ex_parseString xml =
     (if xml = ''<FragmentDefinition><if><Button/></if></FragmentDefinition>''
      then Inr ex_fragment
      else if xml = ''<FragmentDefinition><if><Button/></if><Button/></FragmentDefinition>''
      then Inr ex_fragment_both
      else Inl (ParseError ''Unclosed root tag''))"

definition ex_env :: environment where
  "ex_env = \<lparr> parseString = ex_parseString, fromUI5LegacyName = legacyName, pool = ex_pool \<rparr>"

text \<open>The same environment with a pool that finds nothing.\<close>

definition ex_env_empty_pool :: environment where
  "ex_env_empty_pool = ex_env\<lparr> pool := ex_pool\<lparr> findResource := (\<lambda>n. False) \<rparr> \<rparr>"


section \<open>Properties of the embedding\<close>

subsection \<open>Module Info operations\<close>

lemma addSubModule_sel [simp]:
  "ModuleInfo.name (addSubModule sub i) = ModuleInfo.name i"
  "dependencies (addSubModule sub i) = dependencies i"
  "implicitDependencies (addSubModule sub i) = implicitDependencies i"
  "rawModule (addSubModule sub i) = rawModule i"
  "subModules (addSubModule sub i) = subModules i @ [sub]"
  by (cases i; simp)+

lemma set_rawModule_sel [simp]:
  "ModuleInfo.name (set_rawModule b i) = ModuleInfo.name i"
  "dependencies (set_rawModule b i) = dependencies i"
  "implicitDependencies (set_rawModule b i) = implicitDependencies i"
  "rawModule (set_rawModule b i) = b"
  "subModules (set_rawModule b i) = subModules i"
  by (cases i; simp)+

lemma addDependency_sel [simp]:
  "ModuleInfo.name (addDependency d c i) = ModuleInfo.name i"
  "implicitDependencies (addDependency d c i) = implicitDependencies i"
  "rawModule (addDependency d c i) = rawModule i"
  "subModules (addDependency d c i) = subModules i"
  by (cases i; simp)+

lemma addDependency_dependencies:
  "dependencies (addDependency d c i) =
     (if d = ModuleInfo.name i then dependencies i else writeDependency d c (dependencies i))"
  by (cases i) simp

lemma addImplicitDependency_sel [simp]:
  "ModuleInfo.name (addImplicitDependency d i) = ModuleInfo.name i"
  "dependencies (addImplicitDependency d i) = dependencies i"
  "rawModule (addImplicitDependency d i) = rawModule i"
  "subModules (addImplicitDependency d i) = subModules i"
  by (cases i; simp)+

lemma map_of_writeDependency:
  "map_of (writeDependency d c ds) d' =
     (if d' = d then Some (case map_of ds d of None \<Rightarrow> c | Some c' \<Rightarrow> c' \<and> c)
      else map_of ds d')"
  by (induction ds) auto

lemma addDependencies_sel [simp]:
  "ModuleInfo.name (foldl (\<lambda>i m. addDependency m c i) i ms) = ModuleInfo.name i"
  "implicitDependencies (foldl (\<lambda>i m. addDependency m c i) i ms) = implicitDependencies i"
  "rawModule (foldl (\<lambda>i m. addDependency m c i) i ms) = rawModule i"
  "subModules (foldl (\<lambda>i m. addDependency m c i) i ms) = subModules i"
  by (induction ms arbitrary: i; simp)+

lemma unconditional_stays:
  "isUnconditionalDependency i d \<Longrightarrow> isUnconditionalDependency (addDependency m c i) d"
  by (auto simp: isUnconditionalDependency_def addDependency_dependencies map_of_writeDependency)

lemma unconditional_stays_fold:
  "isUnconditionalDependency i d \<Longrightarrow>
   isUnconditionalDependency (foldl (\<lambda>i m. addDependency m c i) i ms) d"
  by (induction ms arbitrary: i) (auto intro: unconditional_stays)

lemma addDependency_False_unconditional:
  "d \<noteq> ModuleInfo.name i \<Longrightarrow> isUnconditionalDependency (addDependency d False i) d"
  by (auto simp: isUnconditionalDependency_def addDependency_dependencies map_of_writeDependency
           split: option.splits)

lemma required_unconditional:
  "m \<in> set ms \<Longrightarrow> m \<noteq> ModuleInfo.name i \<Longrightarrow>
   isUnconditionalDependency (foldl (\<lambda>i m. addDependency m False i) i ms) m"
proof (induction ms arbitrary: i)
  case Nil
  then show ?case by simp
next
  case (Cons x xs)
  show ?case
  proof (cases "m = x")
    case True
    with Cons.prems have "isUnconditionalDependency (addDependency x False i) m"
      by (simp add: addDependency_False_unconditional)
    then show ?thesis by (simp add: unconditional_stays_fold)
  next
    case False
    with Cons.prems have "m \<in> set xs" by simp
    with Cons.IH [of "addDependency x False i"] Cons.prems show ?thesis by simp
  qed
qed

subsection \<open>Store\<close>

lemma deref_append:
  "deref h r = Some ms \<Longrightarrow> deref (h @ ext) r = Some ms"
  by (auto simp: deref_def nth_append split: option.splits if_splits)

lemma deref_Some_iff:
  "deref h r = Some ms \<longleftrightarrow> (\<exists>a. r = Some a \<and> a < length h \<and> h ! a = ms)"
  by (auto simp: deref_def split: option.splits)

lemma deref_None_iff:
  "deref h r = None \<longleftrightarrow> (r = None \<or> (\<exists>a. r = Some a \<and> \<not> a < length h))"
  by (auto simp: deref_def split: option.splits)

subsection \<open>One batch of lookups\<close>

lemma settle_fold_heap [simp]:
  "heap (foldl (settle_getModuleInfo rp) r ms) = heap r"
  by (induction ms arbitrary: r) (auto simp: settle_getModuleInfo_def split: sum.splits option.splits)

lemma settle_fold_requested [simp]:
  "requested (foldl (settle_getModuleInfo rp) r ms) = requested r"
  by (induction ms arbitrary: r) (auto simp: settle_getModuleInfo_def split: sum.splits option.splits)

lemma settle_fold_rejection:
  "rejection (foldl (settle_getModuleInfo rp) r ms) =
     (case rejection r of Some e \<Rightarrow> Some e | None \<Rightarrow> firstFailure rp ms)"
  by (induction ms arbitrary: r) (auto simp: settle_getModuleInfo_def split: sum.splits option.splits)

lemma settle_fold_bundleInfo:
  "bundleInfo (foldl (settle_getModuleInfo rp) r ms) =
     foldl (\<lambda>i sub. addSubModule sub i) (bundleInfo r) (fetched rp ms)"
  by (induction ms arbitrary: r) (auto simp: settle_getModuleInfo_def split: sum.splits option.splits)

lemma attach_sel [simp]:
  "ModuleInfo.name (foldl (\<lambda>i sub. addSubModule sub i) i subs) = ModuleInfo.name i"
  "dependencies (foldl (\<lambda>i sub. addSubModule sub i) i subs) = dependencies i"
  "implicitDependencies (foldl (\<lambda>i sub. addSubModule sub i) i subs) = implicitDependencies i"
  "rawModule (foldl (\<lambda>i sub. addSubModule sub i) i subs) = rawModule i"
  "subModules (foldl (\<lambda>i sub. addSubModule sub i) i subs) = subModules i @ subs"
  by (induction subs arbitrary: i; simp)+

lemma fetchAll_sel:
  "heap (fetchAll rp picks ms r) = heap r"
  "requested (fetchAll rp picks ms r) = requested r @ ms"
  "rejection (fetchAll rp picks ms r) =
     (case rejection r of Some e \<Rightarrow> Some e
      | None \<Rightarrow> firstFailure rp (settleOrder picks ms))"
  "bundleInfo (fetchAll rp picks ms r) =
     foldl (\<lambda>i sub. addSubModule sub i) (bundleInfo r) (fetched rp (settleOrder picks ms))"
  by (simp_all add: fetchAll_def settle_fold_rejection settle_fold_bundleInfo)

text \<open>Every list of picks gives a rearrangement, and every rearrangement has its picks.\<close>

lemma settleOrder_in_order [simp]: "settleOrder [] ms = ms"
  by (cases ms) simp_all

text \<open>A single lookup settles whenever it settles.\<close>

lemma settleOrder_single [simp]: "settleOrder picks [x] = [x]"
  by (cases picks) simp_all

lemma mset_without_nth:
  "k < length xs \<Longrightarrow> add_mset (xs ! k) (mset (take k xs) + mset (drop (Suc k) xs)) = mset xs"
proof -
  assume "k < length xs"
  then have "xs = take k xs @ xs ! k # drop (Suc k) xs" by (rule id_take_nth_drop)
  then have "mset xs = mset (take k xs @ xs ! k # drop (Suc k) xs)" by simp
  then show ?thesis by simp
qed

lemma mset_settleOrder [simp]: "mset (settleOrder picks ps) = mset ps"
proof (induction picks ps rule: settleOrder.induct)
  case (1 picks)
  then show ?case by simp
next
  case (2 x xs)
  then show ?case by simp
next
  case (3 p picks x xs)
  let ?k = "p mod length (x # xs)"
  have k: "?k < length (x # xs)" by simp
  have "mset (settleOrder (p # picks) (x # xs))
          = add_mset ((x # xs) ! ?k)
              (mset (take ?k (x # xs) @ drop (Suc ?k) (x # xs)))"
    using 3 [OF refl] by (simp add: Let_def del: nth_Cons_Suc take_Suc_Cons drop_Suc_Cons)
  also have "\<dots> = mset (x # xs)"
    using mset_without_nth [OF k] by simp
  finally show ?case .
qed

lemma set_settleOrder [simp]: "set (settleOrder picks ps) = set ps"
  using mset_settleOrder [of picks ps] by (metis set_mset_mset)

lemma every_order_has_picks:
  "mset ys = mset xs \<Longrightarrow> \<exists>picks. settleOrder picks xs = ys"
proof (induction ys arbitrary: xs)
  case Nil
  then show ?case by simp
next
  case (Cons y ys)
  from Cons.prems have "y \<in> set xs" by (metis list.set_intros(1) set_mset_mset)
  then obtain k where k: "k < length xs" and y: "xs ! k = y"
    by (auto simp: in_set_conv_nth)
  let ?rest = "take k xs @ drop (Suc k) xs"
  have "add_mset y (mset ?rest) = mset xs" using mset_without_nth [OF k] y by simp
  also have "\<dots> = add_mset y (mset ys)" using Cons.prems by simp
  finally have "mset ys = mset ?rest" by simp
  then obtain picks where picks: "settleOrder picks ?rest = ys" using Cons.IH by blast
  obtain x xs' where xs: "xs = x # xs'" using k by (cases xs) auto
  have "settleOrder (k # picks) xs = y # ys"
    using k y picks unfolding xs by (simp add: Let_def del: nth_Cons_Suc take_Suc_Cons drop_Suc_Cons)
  then show ?case by blast
qed

lemma firstFailure_None_iff:
  "firstFailure rp ms = None \<longleftrightarrow> (\<forall>m\<in>set ms. \<exists>i. getModuleInfo rp m = Inr i)"
  by (induction ms) (auto split: sum.splits)



subsection \<open>One section\<close>

lemma nextPicks_simps [simp]: "nextPicks [] = []" "nextPicks (picks # timing) = picks"
  by (simp_all add: nextPicks_def)

lemma processSection_rejected:
  "rejection r = Some e \<Longrightarrow> processSection rp picks r s = r"
  by (simp add: processSection_def)

lemma processSection_Provided:
  "ResolvedSection_mode s = Provided \<Longrightarrow> processSection rp picks r s = r"
  by (simp add: processSection_def)

lemma processSection_unassigned:
  "rejection r = None \<Longrightarrow> ResolvedSection_mode s \<noteq> Provided \<Longrightarrow>
   deref (heap r) (modules s) = None \<Longrightarrow>
   processSection rp picks r s = r\<lparr> rejection := Some TypeError \<rparr>"
  by (auto simp: processSection_def deref_def split: option.splits if_splits)

lemma processSection_Require:
  "rejection r = None \<Longrightarrow> ResolvedSection_mode s = Require \<Longrightarrow>
   deref (heap r) (modules s) = Some ms \<Longrightarrow>
   processSection rp picks r s =
     r\<lparr> bundleInfo := foldl (\<lambda>i module. addDependency module False i) (bundleInfo r) ms \<rparr>"
  by (simp add: processSection_def)

lemma processSection_Raw:
  "rejection r = None \<Longrightarrow> ResolvedSection_mode s = Raw \<Longrightarrow>
   deref (heap r) (modules s) = Some ms \<Longrightarrow>
   processSection rp picks r s =
     fetchAll rp picks ms
       (r\<lparr> bundleInfo := (if ms \<noteq> [] then set_rawModule True (bundleInfo r) else bundleInfo r) \<rparr>)"
  by (auto simp: processSection_def deref_Some_iff Let_def)

lemma processSection_Preload:
  "rejection r = None \<Longrightarrow> ResolvedSection_mode s = Preload \<Longrightarrow>
   deref (heap r) (modules s) = Some ms \<Longrightarrow>
   processSection rp picks r s = fetchAll rp picks (sort ms) (r\<lparr> heap := heap r @ [sort ms] \<rparr>)"
  by (auto simp: processSection_def deref_Some_iff Let_def slice_def sort_in_place_def nth_append)

lemma processSection_heap:
  "\<exists>ext. heap (processSection rp picks r s) = heap r @ ext"
proof (cases "rejection r")
  case (Some e)
  then show ?thesis by (simp add: processSection_rejected)
next
  case None
  show ?thesis
  proof (cases "deref (heap r) (modules s)")
    case dn: None
    then show ?thesis using None
      by (cases "ResolvedSection_mode s = Provided")
         (simp_all add: processSection_Provided processSection_unassigned)
  next
    case (Some ms)
    then show ?thesis using None
      by (cases "ResolvedSection_mode s")
         (simp_all add: processSection_Provided processSection_Require processSection_Raw
            processSection_Preload fetchAll_sel)
  qed
qed

lemma resolveSections_append:
  "resolveSections rp timing r (ss @ ts)
     = resolveSections rp (drop (length ss) timing) (resolveSections rp timing r ss) ts"
  by (induction ss arbitrary: timing r) (simp_all add: drop_Suc)

lemma resolveSections_heap:
  "\<exists>ext. heap (resolveSections rp timing r ss) = heap r @ ext"
proof (induction ss arbitrary: timing r)
  case Nil
  then show ?case by simp
next
  case (Cons s ss)
  let ?r = "processSection rp (nextPicks timing) r s"
  obtain e1 where e1: "heap ?r = heap r @ e1"
    using processSection_heap by blast
  obtain e2 where "heap (resolveSections rp (tl timing) ?r ss) = heap ?r @ e2"
    using Cons.IH by blast
  with e1 show ?case by simp
qed

lemma resolveSections_rejected:
  "rejection r = Some e \<Longrightarrow> resolveSections rp timing r ss = r"
  by (induction ss arbitrary: timing r) (simp_all add: processSection_rejected)

subsection \<open>What one section contributes\<close>

lemma processSection_rejection_None:
  "rejection (processSection rp picks r s) = None \<Longrightarrow> rejection r = None"
  by (cases "rejection r") (simp_all add: processSection_rejected)

lemma processSection_name [simp]:
  "ModuleInfo.name (bundleInfo (processSection rp picks r s)) = ModuleInfo.name (bundleInfo r)"
proof (cases "rejection r")
  case (Some e)
  then show ?thesis by (simp add: processSection_rejected)
next
  case None
  show ?thesis
  proof (cases "deref (heap r) (modules s)")
    case dn: None
    then show ?thesis using None
      by (cases "ResolvedSection_mode s = Provided")
         (simp_all add: processSection_Provided processSection_unassigned)
  next
    case (Some ms)
    then show ?thesis using None
      by (cases "ResolvedSection_mode s")
         (simp_all add: processSection_Provided processSection_Require processSection_Raw
            processSection_Preload fetchAll_sel)
  qed
qed

lemma processSection_unconditional_stays:
  assumes "isUnconditionalDependency (bundleInfo r) d"
  shows "isUnconditionalDependency (bundleInfo (processSection rp picks r s)) d"
proof (cases "rejection r")
  case (Some e)
  then show ?thesis using assms by (simp add: processSection_rejected)
next
  case None
  show ?thesis
  proof (cases "deref (heap r) (modules s)")
    case dn: None
    then show ?thesis using None assms
      by (cases "ResolvedSection_mode s = Provided")
         (simp_all add: processSection_Provided processSection_unassigned)
  next
    case (Some ms)
    show ?thesis
    proof (cases "ResolvedSection_mode s")
      case Provided
      then show ?thesis using assms by (simp add: processSection_Provided)
    next
      case Raw
      then show ?thesis using assms
        by (simp add: processSection_Raw [OF None _ Some] fetchAll_sel
              isUnconditionalDependency_def)
    next
      case Require
      then show ?thesis using assms
        by (simp add: processSection_Require [OF None _ Some] unconditional_stays_fold)
    next
      case Preload
      then show ?thesis using assms
        by (simp add: processSection_Preload [OF None _ Some] fetchAll_sel
              isUnconditionalDependency_def)
    qed
  qed
qed

lemma resolveSections_name [simp]:
  "ModuleInfo.name (bundleInfo (resolveSections rp timing r ss)) = ModuleInfo.name (bundleInfo r)"
  by (induction ss arbitrary: timing r) simp_all

lemma resolveSections_unconditional_stays:
  "isUnconditionalDependency (bundleInfo r) d \<Longrightarrow>
   isUnconditionalDependency (bundleInfo (resolveSections rp timing r ss)) d"
  by (induction ss arbitrary: timing r) (simp_all add: processSection_unconditional_stays)

lemma resolveSections_rejection_None:
  "rejection (resolveSections rp timing r ss) = None \<Longrightarrow> rejection r = None"
  by (cases "rejection r") (simp_all add: resolveSections_rejected)

lemma processSection_rejection:
  assumes "rejection r = None" and "deref (heap r) (modules s) = Some ms"
  shows "rejection (processSection rp picks r s) =
           (if ResolvedSection_mode s = Raw
            then firstFailure rp (settleOrder picks ms)
            else if ResolvedSection_mode s = Preload
            then firstFailure rp (settleOrder picks (sort ms))
            else None)"
  using assms
  by (cases "ResolvedSection_mode s")
     (simp_all add: processSection_Provided processSection_Require processSection_Raw
        processSection_Preload fetchAll_sel)

lemma processSection_rawModule:
  assumes "rejection r = None" and "deref (heap r) (modules s) = Some ms"
  shows "rawModule (bundleInfo (processSection rp picks r s)) =
           (rawModule (bundleInfo r) \<or> (ResolvedSection_mode s = Raw \<and> ms \<noteq> []))"
  using assms
  by (cases "ResolvedSection_mode s")
     (simp_all add: processSection_Provided processSection_Require processSection_Raw
        processSection_Preload fetchAll_sel)

lemma listed_eq: "deref h (modules s) = Some ms \<Longrightarrow> listed h s = ms"
  by (simp add: listed_def)

lemma assigned_listed:
  "deref h (modules s) \<noteq> None \<Longrightarrow> deref (h @ ext) (modules s) = Some (listed h s)"
  by (auto simp: listed_def intro: deref_append)

lemma dependencies_required:
  "dependencies (foldl (\<lambda>i m. addDependency m False i) i ms)
     = foldl (\<lambda>ds m. if m = ModuleInfo.name i then ds else writeDependency m False ds)
         (dependencies i) ms"
  by (induction ms arbitrary: i) (simp_all add: addDependency_dependencies)

text \<open>
  A section whose fetches all succeed, in full: the lookups it issues, the submodules it
  attaches, the dependencies it adds, the raw flag.
\<close>

lemma processSection_success:
  assumes "rejection r = None" and "deref (heap r) (modules s) = Some (listed h s)"
      and "ResolvedSection_mode s = Raw \<or> ResolvedSection_mode s = Preload \<longrightarrow>
             (\<forall>m\<in>set (listed h s). \<exists>i. getModuleInfo rp m = Inr i)"
  shows "rejection (processSection rp picks r s) = None"
    and "requested (processSection rp picks r s) = requested r @ issued h s"
    and "subModules (bundleInfo (processSection rp picks r s))
           = subModules (bundleInfo r) @ fetched rp (settleOrder picks (issued h s))"
    and "dependencies (bundleInfo (processSection rp picks r s))
           = foldl (\<lambda>ds m. if m = ModuleInfo.name (bundleInfo r) then ds
                           else writeDependency m False ds)
               (dependencies (bundleInfo r)) (required h s)"
    and "rawModule (bundleInfo (processSection rp picks r s))
           = (rawModule (bundleInfo r) \<or> (ResolvedSection_mode s = Raw \<and> listed h s \<noteq> []))"
    and "implicitDependencies (bundleInfo (processSection rp picks r s))
           = implicitDependencies (bundleInfo r)"
proof -
  note d = assms(2)
  show "rejection (processSection rp picks r s) = None"
    using assms(3) by (simp add: processSection_rejection [OF assms(1) d] firstFailure_None_iff)
  show "rawModule (bundleInfo (processSection rp picks r s))
           = (rawModule (bundleInfo r) \<or> (ResolvedSection_mode s = Raw \<and> listed h s \<noteq> []))"
    by (rule processSection_rawModule [OF assms(1) d])
  show "requested (processSection rp picks r s) = requested r @ issued h s"
    by (cases "ResolvedSection_mode s")
       (simp_all add: processSection_Provided processSection_Require [OF assms(1) _ d]
          processSection_Raw [OF assms(1) _ d] processSection_Preload [OF assms(1) _ d]
          fetchAll_sel issued_def)
  show "subModules (bundleInfo (processSection rp picks r s))
           = subModules (bundleInfo r) @ fetched rp (settleOrder picks (issued h s))"
    by (cases "ResolvedSection_mode s")
       (simp_all add: processSection_Provided processSection_Require [OF assms(1) _ d]
          processSection_Raw [OF assms(1) _ d] processSection_Preload [OF assms(1) _ d]
          fetchAll_sel issued_def)
  show "dependencies (bundleInfo (processSection rp picks r s))
           = foldl (\<lambda>ds m. if m = ModuleInfo.name (bundleInfo r) then ds
                           else writeDependency m False ds)
               (dependencies (bundleInfo r)) (required h s)"
    by (cases "ResolvedSection_mode s")
       (simp_all add: processSection_Provided processSection_Require [OF assms(1) _ d]
          processSection_Raw [OF assms(1) _ d] processSection_Preload [OF assms(1) _ d]
          fetchAll_sel required_def dependencies_required)
  show "implicitDependencies (bundleInfo (processSection rp picks r s))
           = implicitDependencies (bundleInfo r)"
    by (cases "ResolvedSection_mode s")
       (simp_all add: processSection_Provided processSection_Require [OF assms(1) _ d]
          processSection_Raw [OF assms(1) _ d] processSection_Preload [OF assms(1) _ d]
          fetchAll_sel)
qed


subsection \<open>The whole chain\<close>

lemma resolveSections_rawModule:
  assumes "\<forall>s\<in>set ss. deref h (modules s) \<noteq> None"
      and "heap r = h @ ext"
      and "rejection (resolveSections rp timing r ss) = None"
  shows "rawModule (bundleInfo (resolveSections rp timing r ss)) =
           (rawModule (bundleInfo r)
            \<or> (\<exists>s\<in>set ss. ResolvedSection_mode s = Raw \<and> listed h s \<noteq> []))"
  using assms
proof (induction ss arbitrary: timing r ext)
  case Nil
  then show ?case by simp
next
  case (Cons s ss)
  let ?r = "processSection rp (nextPicks timing) r s"
  from Cons.prems(3) have rn: "rejection ?r = None"
    using resolveSections_rejection_None by fastforce
  then have r0: "rejection r = None" by (rule processSection_rejection_None)
  have d: "deref (heap r) (modules s) = Some (listed h s)"
    using Cons.prems(1,2) by (simp add: assigned_listed)
  obtain e1 where e1: "heap ?r = heap r @ e1" using processSection_heap by blast
  have "rawModule (bundleInfo (resolveSections rp (tl timing) ?r ss)) =
          (rawModule (bundleInfo ?r)
           \<or> (\<exists>s\<in>set ss. ResolvedSection_mode s = Raw \<and> listed h s \<noteq> []))"
    using Cons.IH [of ?r "ext @ e1" "tl timing"] Cons.prems e1 by simp
  then show ?case
    by (auto simp: processSection_rawModule [OF r0 d])
qed


lemma resolveSections_required:
  assumes "\<forall>s\<in>set ss. deref h (modules s) \<noteq> None"
      and "heap r = h @ ext"
      and "rejection (resolveSections rp timing r ss) = None"
      and "s \<in> set ss" and "ResolvedSection_mode s = Require"
      and "m \<in> set (listed h s)" and "m \<noteq> ModuleInfo.name (bundleInfo r)"
  shows "isUnconditionalDependency (bundleInfo (resolveSections rp timing r ss)) m"
  using assms
proof (induction ss arbitrary: timing r ext)
  case Nil
  then show ?case by simp
next
  case (Cons x xs)
  let ?r = "processSection rp (nextPicks timing) r x"
  from Cons.prems(3) have rn: "rejection ?r = None"
    using resolveSections_rejection_None by fastforce
  then have r0: "rejection r = None" by (rule processSection_rejection_None)
  obtain e1 where e1: "heap ?r = heap r @ e1" using processSection_heap by blast
  show ?case
  proof (cases "s = x")
    case True
    have d: "deref (heap r) (modules s) = Some (listed h s)"
      using Cons.prems(1,2) True by (simp add: assigned_listed)
    have "processSection rp (nextPicks timing) r s =
            r\<lparr> bundleInfo := foldl (\<lambda>i module. addDependency module False i)
                                 (bundleInfo r) (listed h s) \<rparr>"
      by (rule processSection_Require [OF r0 Cons.prems(5) d])
    then have "isUnconditionalDependency (bundleInfo (processSection rp (nextPicks timing) r s)) m"
      using Cons.prems(6,7) by (simp add: required_unconditional)
    then have "isUnconditionalDependency (bundleInfo ?r) m"
      using True by simp
    then show ?thesis by (simp add: resolveSections_unconditional_stays)
  next
    case False
    with Cons.prems have "s \<in> set xs" by simp
    with Cons.IH [of ?r "ext @ e1" "tl timing"] Cons.prems e1 show ?thesis by simp
  qed
qed

text \<open>
  A chain in which every fetch succeeds, in full. The sections contribute in declared
  order: the lookups of a section are issued after those of the sections before it, and
  its submodules are attached after theirs.
\<close>

lemma resolveSections_success:
  assumes "\<forall>s\<in>set ss. deref h (modules s) \<noteq> None"
      and "heap r = h @ ext"
      and "rejection r = None"
      and "\<forall>s\<in>set ss. ResolvedSection_mode s = Raw \<or> ResolvedSection_mode s = Preload \<longrightarrow>
             (\<forall>m\<in>set (listed h s). \<exists>i. getModuleInfo rp m = Inr i)"
  shows "rejection (resolveSections rp timing r ss) = None
       \<and> requested (resolveSections rp timing r ss)
           = requested r @ concat (map (issued h) ss)
       \<and> subModules (bundleInfo (resolveSections rp timing r ss))
           = subModules (bundleInfo r) @ attached rp h timing ss
       \<and> dependencies (bundleInfo (resolveSections rp timing r ss))
           = foldl (\<lambda>ds m. if m = ModuleInfo.name (bundleInfo r) then ds
                           else writeDependency m False ds)
               (dependencies (bundleInfo r)) (concat (map (required h) ss))
       \<and> rawModule (bundleInfo (resolveSections rp timing r ss))
           = (rawModule (bundleInfo r)
              \<or> (\<exists>s\<in>set ss. ResolvedSection_mode s = Raw \<and> listed h s \<noteq> []))
       \<and> implicitDependencies (bundleInfo (resolveSections rp timing r ss))
           = implicitDependencies (bundleInfo r)"
  using assms
proof (induction ss arbitrary: timing r ext)
  case Nil
  then show ?case by simp
next
  case (Cons s ss)
  let ?p = "nextPicks timing"
  let ?r = "processSection rp ?p r s"
  have d: "deref (heap r) (modules s) = Some (listed h s)"
    using Cons.prems(1,2) by (simp add: assigned_listed)
  have ok: "ResolvedSection_mode s = Raw \<or> ResolvedSection_mode s = Preload \<longrightarrow>
             (\<forall>m\<in>set (listed h s). \<exists>i. getModuleInfo rp m = Inr i)"
    using Cons.prems(4) by simp
  note step = processSection_success [OF Cons.prems(3) d ok, of ?p]
  obtain e1 where e1: "heap ?r = heap r @ e1" using processSection_heap by blast
  have h1: "heap ?r = h @ (ext @ e1)" using e1 Cons.prems(2) by simp
  have wf: "\<forall>s\<in>set ss. deref h (modules s) \<noteq> None" using Cons.prems(1) by simp
  have oks: "\<forall>s\<in>set ss. ResolvedSection_mode s = Raw \<or> ResolvedSection_mode s = Preload \<longrightarrow>
             (\<forall>m\<in>set (listed h s). \<exists>i. getModuleInfo rp m = Inr i)"
    using Cons.prems(4) by simp
  note ih = Cons.IH [OF wf h1 step(1) oks, of "tl timing"]
  show ?case
    using ih by (auto simp: step(2) step(3) step(4) step(5) step(6))
qed

text \<open>
  A chain that fails: the sections before the first failing one have issued their lookups,
  the failing one has issued all of its own, and no later section has issued any.
\<close>

lemma resolveSections_stops:
  assumes "\<forall>s\<in>set (before @ [s]). deref h (modules s) \<noteq> None"
      and "heap r = h @ ext"
      and "rejection r = None"
      and "\<forall>s\<in>set before. ResolvedSection_mode s = Raw \<or> ResolvedSection_mode s = Preload \<longrightarrow>
             (\<forall>m\<in>set (listed h s). \<exists>i. getModuleInfo rp m = Inr i)"
      and "ResolvedSection_mode s = Raw \<or> ResolvedSection_mode s = Preload"
      and "m \<in> set (listed h s)" and "getModuleInfo rp m = Inl e"
  shows "rejection (resolveSections rp timing r (before @ s # after)) \<noteq> None
       \<and> requested (resolveSections rp timing r (before @ s # after))
           = requested r @ concat (map (issued h) (before @ [s]))"
proof -
  let ?t = "drop (length before) timing"
  let ?r1 = "resolveSections rp timing r before"
  let ?r2 = "processSection rp (nextPicks ?t) ?r1 s"
  have wfb: "\<forall>s\<in>set before. deref h (modules s) \<noteq> None" using assms(1) by simp
  note b = resolveSections_success [OF wfb assms(2,3,4), of timing]
  obtain e1 where e1: "heap ?r1 = heap r @ e1" using resolveSections_heap by blast
  have d: "deref (heap ?r1) (modules s) = Some (listed h s)"
    using assms(1,2) e1 by (simp add: assigned_listed)
  have r1: "rejection ?r1 = None" using b by simp
  have bad: "\<exists>m\<in>set (listed h s). \<forall>i. getModuleInfo rp m \<noteq> Inr i"
    using assms(6,7) by (intro bexI [of _ m]) simp_all
  have "firstFailure rp (settleOrder (nextPicks ?t) (listed h s)) \<noteq> None"
       "firstFailure rp (settleOrder (nextPicks ?t) (sort (listed h s))) \<noteq> None"
    using bad by (simp_all add: firstFailure_None_iff)
  then have rej: "rejection ?r2 \<noteq> None"
    using assms(5) by (auto simp: processSection_rejection [OF r1 d])
  have req: "requested ?r2 = requested ?r1 @ issued h s"
    using assms(5)
    by (auto simp: processSection_Raw [OF r1 _ d] processSection_Preload [OF r1 _ d]
          fetchAll_sel issued_def)
  have fin: "resolveSections rp timing r (before @ s # after) = ?r2"
    using rej by (auto simp: resolveSections_append resolveSections_rejected)
  show ?thesis
    unfolding fin using rej req b by simp
qed


subsection \<open>Sections that differ in the declared order of a Preload list\<close>

lemma sort_mset_eq: "mset ms = mset ms' \<Longrightarrow> sort ms = sort (ms' :: string list)"
  using properties_for_sort [of "sort ms'" ms] by simp

lemma fetchAll_agree:
  assumes "bundleInfo r = bundleInfo r'" and "requested r = requested r'"
      and "rejection r = rejection r'"
  shows "bundleInfo (fetchAll rp picks ms r) = bundleInfo (fetchAll rp picks ms r')
       \<and> requested (fetchAll rp picks ms r) = requested (fetchAll rp picks ms r')
       \<and> rejection (fetchAll rp picks ms r) = rejection (fetchAll rp picks ms r')"
  unfolding fetchAll_sel assms by simp

lemma processSection_same_members:
  assumes "same_members h h' s s'"
      and "heap r = h @ ext" and "heap r' = h' @ ext'"
      and "bundleInfo r = bundleInfo r'" and "requested r = requested r'"
      and "rejection r = rejection r'"
  shows "bundleInfo (processSection rp picks r s) = bundleInfo (processSection rp picks r' s')
       \<and> requested (processSection rp picks r s) = requested (processSection rp picks r' s')
       \<and> rejection (processSection rp picks r s) = rejection (processSection rp picks r' s')"
proof (cases "rejection r")
  case (Some e)
  have "rejection r' = Some e" unfolding assms(6) [symmetric] by (rule Some)
  then have "processSection rp picks r' s' = r'" by (rule processSection_rejected)
  moreover have "processSection rp picks r s = r" using Some by (rule processSection_rejected)
  ultimately show ?thesis using assms(4,5,6) by simp
next
  case None
  have None': "rejection r' = None" unfolding assms(6) [symmetric] by (rule None)
  from assms(1) obtain ms ms' where
    m: "ResolvedSection_mode s = ResolvedSection_mode s'"
    and d: "deref h (modules s) = Some ms" and d': "deref h' (modules s') = Some ms'"
    and eq: "if ResolvedSection_mode s = Preload then mset ms = mset ms' else ms = ms'"
    by (auto simp: same_members_def split: option.splits)
  have D: "deref (heap r) (modules s) = Some ms" using d assms(2) by (simp add: deref_append)
  have D': "deref (heap r') (modules s') = Some ms'" using d' assms(3) by (simp add: deref_append)
  show ?thesis
  proof (cases "ResolvedSection_mode s")
    case Provided
    then have "ResolvedSection_mode s' = Provided" using m by simp
    then have "processSection rp picks r' s' = r'" by (rule processSection_Provided)
    moreover have "processSection rp picks r s = r" using Provided by (rule processSection_Provided)
    ultimately show ?thesis using assms(4,5,6) by simp
  next
    case Raw
    then have m': "ResolvedSection_mode s' = Raw" using m by simp
    have e: "ms' = ms" using eq Raw by simp
    show ?thesis
      unfolding processSection_Raw [OF None Raw D] processSection_Raw [OF None' m' D'] e
      by (rule fetchAll_agree) (simp_all add: assms(4) assms(5) None None')
  next
    case Require
    then have m': "ResolvedSection_mode s' = Require" using m by simp
    have e: "ms' = ms" using eq Require by simp
    show ?thesis
      unfolding processSection_Require [OF None Require D]
                processSection_Require [OF None' m' D'] e
      by (simp add: assms(4) assms(5) None None')
  next
    case Preload
    then have m': "ResolvedSection_mode s' = Preload" using m by simp
    have "mset ms = mset ms'" using eq Preload by simp
    then have e: "sort ms' = sort ms" by (rule sort_mset_eq [symmetric])
    show ?thesis
      unfolding processSection_Preload [OF None Preload D]
                processSection_Preload [OF None' m' D'] e
      by (rule fetchAll_agree) (simp_all add: assms(4) assms(5) None None')
  qed
qed

lemma resolveSections_same_members:
  assumes "list_all2 (same_members h h') ss ss'"
      and "heap r = h @ ext" and "heap r' = h' @ ext'"
      and "bundleInfo r = bundleInfo r'" and "requested r = requested r'"
      and "rejection r = rejection r'"
  shows "bundleInfo (resolveSections rp timing r ss) = bundleInfo (resolveSections rp timing r' ss')
       \<and> requested (resolveSections rp timing r ss) = requested (resolveSections rp timing r' ss')
       \<and> rejection (resolveSections rp timing r ss) = rejection (resolveSections rp timing r' ss')"
  using assms
proof (induction ss ss' arbitrary: timing r r' ext ext' rule: list_all2_induct)
  case Nil
  then show ?case by simp
next
  case (Cons s ss s' ss')
  let ?p = "nextPicks timing"
  obtain e1 where e1: "heap (processSection rp ?p r s) = heap r @ e1"
    using processSection_heap by blast
  obtain e1' where e1': "heap (processSection rp ?p r' s') = heap r' @ e1'"
    using processSection_heap by blast
  note step = processSection_same_members [OF Cons.hyps(1) Cons.prems(1,2,3,4,5), of rp ?p]
  have h1: "heap (processSection rp ?p r s) = h @ (ext @ e1)"
    using e1 Cons.prems(1) by simp
  have h1': "heap (processSection rp ?p r' s') = h' @ (ext' @ e1')"
    using e1' Cons.prems(2) by simp
  have "bundleInfo (resolveSections rp (tl timing) (processSection rp ?p r s) ss)
          = bundleInfo (resolveSections rp (tl timing) (processSection rp ?p r' s') ss')
       \<and> requested (resolveSections rp (tl timing) (processSection rp ?p r s) ss)
          = requested (resolveSections rp (tl timing) (processSection rp ?p r' s') ss')
       \<and> rejection (resolveSections rp (tl timing) (processSection rp ?p r s) ss)
          = rejection (resolveSections rp (tl timing) (processSection rp ?p r' s') ss')"
    using step by (intro Cons.IH [OF h1 h1']) simp_all
  then show ?case by simp
qed

subsection \<open>The returned promise\<close>

lemma createModuleInfo_Inr_iff:
  "createModuleInfo rp timing h b = Inr i \<longleftrightarrow>
     rejection (createModuleInfo_run rp timing h b) = None \<and> bundleInfo (createModuleInfo_run rp timing h b) = i"
  by (auto simp: createModuleInfo_def Let_def split: option.splits)

lemma createModuleInfo_Inl_iff:
  "createModuleInfo rp timing h b = Inl e \<longleftrightarrow> rejection (createModuleInfo_run rp timing h b) = Some e"
  by (auto simp: createModuleInfo_def Let_def split: option.splits)

lemma start_sel [simp]:
  "bundleInfo (createModuleInfo_start h b) = ModuleInfo_create (name b)"
  "heap (createModuleInfo_start h b) = h"
  "requested (createModuleInfo_start h b) = []"
  "rejection (createModuleInfo_start h b) = None"
  by (simp_all add: createModuleInfo_start_def)

lemma ModuleInfo_create_sel [simp]:
  "ModuleInfo.name (ModuleInfo_create n) = n"
  "dependencies (ModuleInfo_create n) = []"
  "implicitDependencies (ModuleInfo_create n) = []"
  "rawModule (ModuleInfo_create n) = False"
  "subModules (ModuleInfo_create n) = []"
  by (simp_all add: ModuleInfo_create_def)

lemma createModuleInfo_agree:
  assumes "bundleInfo r = bundleInfo r'" and "rejection r = rejection r'"
  shows "(case rejection r of None \<Rightarrow> Inr (bundleInfo r) | Some e \<Rightarrow> Inl e)
       = (case rejection r' of None \<Rightarrow> Inr (bundleInfo r') | Some e \<Rightarrow> Inl e)"
  unfolding assms by simp

lemma createModuleInfo_same_members:
  assumes "name b = name b'"
      and "list_all2 (same_members h h') (sections b) (sections b')"
  shows "createModuleInfo rp timing h b = createModuleInfo rp timing h' b'"
proof -
  have "bundleInfo (createModuleInfo_run rp timing h b) = bundleInfo (createModuleInfo_run rp timing h' b')
      \<and> requested (createModuleInfo_run rp timing h b) = requested (createModuleInfo_run rp timing h' b')
      \<and> rejection (createModuleInfo_run rp timing h b) = rejection (createModuleInfo_run rp timing h' b')"
    unfolding createModuleInfo_run_def
    by (rule resolveSections_same_members [OF assms(2), of _ "[]" _ "[]"])
       (simp_all add: assms(1))
  then show ?thesis
    unfolding createModuleInfo_def Let_def by (intro createModuleInfo_agree) simp_all
qed

lemma same_members_grown:
  "deref h (modules s) \<noteq> None \<Longrightarrow> same_members (h @ ext) h s s"
  by (auto simp: same_members_def assigned_listed listed_def)

subsection \<open>Derived queries\<close>

lemma some_section_total:
  "\<forall>s\<in>set ss. p s = Inr (q s) \<Longrightarrow> some_section p ss = Inr (\<exists>s\<in>set ss. q s)"
  by (induction ss) auto

lemma lists_module_assigned:
  "deref h (modules s) \<noteq> None \<Longrightarrow> lists_module h s m = Inr (m \<in> set (listed h s))"
  by (auto simp: lists_module_def listed_def list_ex_iff)

lemmas ex_defs = ex_bundle_def ex_bundle_reordered_def ex_bundle_raw_def ex_bundle_empty_raw_def
  ex_bundle_self_def ex_bundle_then_raw_def ex_bundle_requires_def
  ex_store_def ex_constants_def bundle_of_def section_of_def
  deref_def listed_def ResolvedSection_mode_def

subsection \<open>What the chain leaves behind\<close>

lemma createModuleInfo_success:
  assumes "\<forall>s\<in>set (sections b). deref h (modules s) \<noteq> None"
      and "\<forall>s\<in>set (sections b).
             ResolvedSection_mode s = Raw \<or> ResolvedSection_mode s = Preload \<longrightarrow>
             (\<forall>m\<in>set (listed h s). \<exists>i. getModuleInfo rp m = Inr i)"
  shows "createModuleInfo rp timing h b =
           Inr (ModuleInfo (name b)
                  (requiredDependencies (name b) (concat (map (required h) (sections b))))
                  []
                  (\<exists>s\<in>set (sections b). ResolvedSection_mode s = Raw \<and> listed h s \<noteq> [])
                  (attached rp h timing (sections b)))"
    and "requested (createModuleInfo_run rp timing h b) = concat (map (issued h) (sections b))"
proof -
  let ?R = "resolveSections rp timing (createModuleInfo_start h b) (sections b)"
  have hp: "heap (createModuleInfo_start h b) = h @ []" by simp
  have r0: "rejection (createModuleInfo_start h b) = None" by simp
  note s = resolveSections_success [OF assms(1) hp r0 assms(2), of timing]
  have "bundleInfo ?R =
          ModuleInfo (ModuleInfo.name (bundleInfo ?R)) (dependencies (bundleInfo ?R))
            (implicitDependencies (bundleInfo ?R)) (rawModule (bundleInfo ?R))
            (subModules (bundleInfo ?R))"
    by (rule ModuleInfo.collapse [symmetric])
  also have "\<dots> = ModuleInfo (name b)
                  (requiredDependencies (name b) (concat (map (required h) (sections b))))
                  []
                  (\<exists>s\<in>set (sections b). ResolvedSection_mode s = Raw \<and> listed h s \<noteq> [])
                  (attached rp h timing (sections b))"
    using s by (simp add: requiredDependencies_def)
  finally have i: "bundleInfo ?R = ModuleInfo (name b)
                  (requiredDependencies (name b) (concat (map (required h) (sections b))))
                  []
                  (\<exists>s\<in>set (sections b). ResolvedSection_mode s = Raw \<and> listed h s \<noteq> [])
                  (attached rp h timing (sections b))" .
  have rn: "rejection ?R = None" using s by simp
  show "createModuleInfo rp timing h b =
           Inr (ModuleInfo (name b)
                  (requiredDependencies (name b) (concat (map (required h) (sections b))))
                  []
                  (\<exists>s\<in>set (sections b). ResolvedSection_mode s = Raw \<and> listed h s \<noteq> [])
                  (attached rp h timing (sections b)))"
    using i rn by (simp add: createModuleInfo_Inr_iff createModuleInfo_run_def)
  show "requested (createModuleInfo_run rp timing h b) = concat (map (issued h) (sections b))"
    using s by (simp add: createModuleInfo_run_def)
qed

subsection \<open>The example bundles\<close>

lemmas run_defs = createModuleInfo_def createModuleInfo_run_def createModuleInfo_start_def
  processSection_def fetchAll_def settle_getModuleInfo_def
  slice_def sort_in_place_def ModuleInfo_create_def
  ex_pool_def ex_pool_missing_def ex_in_order_def ex_second_first_def ex_raw_second_first_def

lemma ex_run:
  "createModuleInfo ex_pool ex_in_order ex_store ex_bundle =
     Inr (ModuleInfo ''my/bundle.js''
            [(''sap/ui/core/Core.js'', False), (''my/App.js'', False)] [] False
            [ModuleInfo ''my/Helper.js'' [] [] False [], ModuleInfo ''my/lib.js'' [] [] False []])"
  by (simp add: run_defs ex_defs)

lemma ex_run_second_first:
  "createModuleInfo ex_pool ex_second_first ex_store ex_bundle =
     Inr (ModuleInfo ''my/bundle.js''
            [(''sap/ui/core/Core.js'', False), (''my/App.js'', False)] [] False
            [ModuleInfo ''my/lib.js'' [] [] False [], ModuleInfo ''my/Helper.js'' [] [] False []])"
  by (simp add: run_defs ex_defs)

lemma ex_raw_run:
  "createModuleInfo ex_pool ex_in_order ex_store ex_bundle_raw =
     Inr (ModuleInfo ''my/raw-bundle.js''
            [(''sap/ui/core/Core.js'', False), (''my/App.js'', False)] [] True
            [ModuleInfo ''my/raw2.js'' [] [] False [], ModuleInfo ''my/raw1.js'' [] [] False []])"
  by (simp add: run_defs ex_defs)

lemma ex_empty_raw_run:
  "createModuleInfo ex_pool ex_in_order ex_store ex_bundle_empty_raw =
     Inr (ModuleInfo ''my/bundle.js'' [] [] False
            [ModuleInfo ''my/Helper.js'' [] [] False [], ModuleInfo ''my/lib.js'' [] [] False []])"
  by (simp add: run_defs ex_defs)


subsection \<open>The traversal\<close>

lemma matchSegment_nonempty: "matchSegment ns \<Longrightarrow> ns \<noteq> []"
  by (cases ns) simp_all

lemma traversal:
  "info (analyzeNode env n a) = info a
   \<and> busy (analyzeNode env n a) = busy a
   \<and> conditional (analyzeNode env n a) = conditional a
   \<and> promises (analyzeNode env n a) = promises a @ lookups env n"
  "info (analyzeNodes env ns a) = info a
   \<and> busy (analyzeNodes env ns a) = busy a
   \<and> conditional (analyzeNodes env ns a) = conditional a
   \<and> promises (analyzeNodes env ns a) = promises a @ concat (map (lookups env) ns)"
proof (induction env n a and env ns a rule: analyzeNode_analyzeNodes.induct)
  case (1 env uri localName attrs cs a)
  show ?case
    using 1 [OF refl refl refl]
    by (auto simp: Let_def candidateModule_def PATTERN_LIBRARY_NAMESPACES_def
          dest: matchSegment_nonempty split: option.splits)
next
  case (2 env a)
  then show ?case by simp
next
  case (3 env child cs a)
  then show ?case by simp
qed

lemma analyzeNode_sel [simp]:
  "info (analyzeNode env n a) = info a"
  "busy (analyzeNode env n a) = busy a"
  "conditional (analyzeNode env n a) = conditional a"
  "promises (analyzeNode env n a) = promises a @ lookups env n"
  using traversal(1) [of env n a] by simp_all

lemma analyzeNodes_sel [simp]:
  "info (analyzeNodes env ns a) = info a"
  "busy (analyzeNodes env ns a) = busy a"
  "conditional (analyzeNodes env ns a) = conditional a"
  "promises (analyzeNodes env ns a) = promises a @ concat (map (lookups env) ns)"
  using traversal(2) [of env ns a] by simp_all

subsection \<open>The callbacks\<close>

lemma analyzer_addDependency_sel [simp]:
  "conditional (analyzer_addDependency m a) = conditional a"
  "busy (analyzer_addDependency m a) = busy a"
  "promises (analyzer_addDependency m a) = promises a"
  by (simp_all add: analyzer_addDependency_def)

lemma addReferenced_sel [simp]:
  "conditional (addReferenced env n attr suffix a) = conditional a"
  "busy (addReferenced env n attr suffix a) = busy a"
  "promises (addReferenced env n attr suffix a) = promises a"
  by (simp_all add: addReferenced_def split: option.splits)

lemma onResourceFound_sel [simp]:
  "conditional (onResourceFound env m n a) = conditional a"
  "busy (onResourceFound env m n a) = busy a"
  "promises (onResourceFound env m n a) = promises a"
  by (simp_all add: onResourceFound_def Let_def split: option.splits)

lemma settle_findResource_sel [simp]:
  "conditional (settle_findResource env a p) = conditional a"
  "busy (settle_findResource env a p) = busy a"
  "promises (settle_findResource env a p) = promises a"
  by (simp_all add: settle_findResource_def)

lemma settle_fold_sel [simp]:
  "conditional (foldl (settle_findResource env) a ps) = conditional a"
  "busy (foldl (settle_findResource env) a ps) = busy a"
  "promises (foldl (settle_findResource env) a ps) = promises a"
  by (induction ps arbitrary: a; simp)+



text \<open>A dependency written without the conditional flag is never conditional afterwards.\<close>

lemma addDependency_False_conditional:
  "isConditionalDependency (addDependency d False i) d' \<Longrightarrow> isConditionalDependency i d'"
  by (auto simp: isConditionalDependency_def addDependency_dependencies map_of_writeDependency
           split: if_splits option.splits)

lemma analyzer_addDependency_conditional:
  "isConditionalDependency (info (analyzer_addDependency m a)) d \<Longrightarrow> \<not> conditional a \<Longrightarrow>
   isConditionalDependency (info a) d"
  by (auto simp: analyzer_addDependency_def dest: addDependency_False_conditional split: if_splits)

lemma addReferenced_conditional:
  "isConditionalDependency (info (addReferenced env n attr suffix a)) d \<Longrightarrow> \<not> conditional a \<Longrightarrow>
   isConditionalDependency (info a) d"
  by (auto simp: addReferenced_def dest: analyzer_addDependency_conditional split: option.splits)

lemma onResourceFound_conditional:
  assumes "isConditionalDependency (info (onResourceFound env m n a)) d"
      and "\<not> conditional a"
  shows "isConditionalDependency (info a) d"
proof -
  let ?a1 = "analyzer_addDependency m a"
  have c1: "\<not> conditional ?a1" using assms(2) by simp
  have "isConditionalDependency (info ?a1) d"
    using assms
    by (auto simp: onResourceFound_def Let_def
             dest: addReferenced_conditional analyzer_addDependency_conditional
             split: if_splits option.splits)
  then show ?thesis using assms(2) by (rule analyzer_addDependency_conditional)
qed

lemma settle_findResource_conditional:
  "isConditionalDependency (info (settle_findResource env a p)) d \<Longrightarrow> \<not> conditional a \<Longrightarrow>
   isConditionalDependency (info a) d"
  by (auto simp: settle_findResource_def dest: onResourceFound_conditional split: if_splits)

lemma settle_fold_conditional:
  "isConditionalDependency (info (foldl (settle_findResource env) a ps)) d \<Longrightarrow> \<not> conditional a \<Longrightarrow>
   isConditionalDependency (info a) d"
proof (induction ps arbitrary: a)
  case Nil
  then show ?case by simp
next
  case (Cons p ps)
  have c: "\<not> conditional (settle_findResource env a p)" using Cons.prems(2) by simp
  have "isConditionalDependency (info (settle_findResource env a p)) d"
    using Cons.IH [OF _ c] Cons.prems(1) by simp
  then show ?case using Cons.prems(2) by (rule settle_findResource_conditional)
qed

subsection \<open>The two parts of an analysis\<close>

lemma analyze_begin_busy:
  "busy a \<Longrightarrow> analyze_begin env xml i isFragment a = (Thrown AnalyzerBusy, a)"
  by (simp add: analyze_begin_def)

lemma analyze_begin_parse_error:
  "\<not> busy a \<Longrightarrow> parseString env xml = Inl err \<Longrightarrow>
   analyze_begin env xml i isFragment a
     = (Rejected err, a\<lparr> info := i, conditional := False, promises := [], busy := False \<rparr>)"
  by (simp add: analyze_begin_def)

lemma analyzeViewRootNode_sel [simp]:
  "busy (analyzeViewRootNode env root a) = busy a"
  "conditional (analyzeViewRootNode env root a) = conditional a"
  "promises (analyzeViewRootNode env root a)
     = promises a @ concat (map (lookups env) (children root))"
  by (simp_all add: analyzeViewRootNode_def analyzeChildren_def Let_def)

lemma analyzeViewRootNode_conditional:
  assumes "isConditionalDependency (info (analyzeViewRootNode env root a)) d"
      and "\<not> conditional a"
  shows "isConditionalDependency (info a) d"
proof -
  let ?a0 = "a\<lparr> info := addImplicitDependency XMLVIEW_MODULE (info a) \<rparr>"
  let ?a1 = "addReferenced env root XMLVIEW_CONTROLLERNAME_ATTRIBUTE ''.controller.js'' ?a0"
  have "isConditionalDependency
          (info (addReferenced env root XMLVIEW_RESBUNDLENAME_ATTRIBUTE ''.properties'' ?a1)) d"
    using assms(1) by (simp add: analyzeViewRootNode_def analyzeChildren_def Let_def)
  then have "isConditionalDependency (info ?a1) d"
    by (rule addReferenced_conditional) (simp add: assms(2))
  then have "isConditionalDependency (info ?a0) d"
    by (rule addReferenced_conditional) (simp add: assms(2))
  then show ?thesis by (simp add: isConditionalDependency_def)
qed

lemma analyze_begin_parsed:
  assumes "\<not> busy a" and "parseString env xml = Inr root"
  shows "fst (analyze_begin env xml i isFragment a) = Pending"
    and "busy (snd (analyze_begin env xml i isFragment a))"
    and "\<not> conditional (snd (analyze_begin env xml i isFragment a))"
    and "promises (snd (analyze_begin env xml i isFragment a))
           = (if isFragment then lookups env root
              else concat (map (lookups env) (children root)))"
    and "info (snd (analyze_begin env xml i isFragment a))
           = (if isFragment then addImplicitDependency FRAGMENT_MODULE i
              else info (analyzeViewRootNode env root
                     (a\<lparr> info := i, conditional := False, promises := [], busy := True \<rparr>)))"
  using assms
  by (simp_all add: analyze_begin_def Let_def)

lemma analyze_parsed:
  assumes "\<not> busy a" and "parseString env xml = Inr root"
  shows "analyze env picks xml i isFragment a = analyze_settle env picks (snd (analyze_begin env xml i isFragment a))"
proof -
  have "fst (analyze_begin env xml i isFragment a) = Pending"
    using assms by (rule analyze_begin_parsed)
  then show ?thesis
    by (cases "analyze_begin env xml i isFragment a") (simp add: analyze_def)
qed

lemma analyze_ignores_old_fields:
  "\<not> busy a \<Longrightarrow>
   analyze env picks xml i isFragment (a\<lparr> info := x, conditional := y, promises := z \<rparr>)
     = analyze env picks xml i isFragment a"
  by (simp add: analyze_def analyze_begin_def)

text \<open>
  Whatever the tree and the pool: a dependency that is conditional in the Module Info an
  analysis delivers was conditional in the Module Info it was given.
\<close>

lemma analysis_records_nothing_conditional:
  assumes "\<not> busy a" and "analyze env picks xml i isFragment a = (Resolved i', a')"
      and "isConditionalDependency i' d"
  shows "isConditionalDependency i d"
proof (cases "parseString env xml")
  case (Inl err)
  then show ?thesis using assms by (simp add: analyze_def analyze_begin_parse_error)
next
  case (Inr root)
  let ?b = "snd (analyze_begin env xml i isFragment a)"
  note b = analyze_begin_parsed [OF assms(1) Inr, of i isFragment]
  have "analyze_settle env picks ?b = (Resolved i', a')"
    using assms(2) analyze_parsed [OF assms(1) Inr] by simp
  then have "i' = info (foldl (settle_findResource env) ?b
                 (settleOrder picks (promises ?b)))"
    by (auto simp: analyze_settle_def Let_def)
  then have 1: "isConditionalDependency (info ?b) d"
    using assms(3) settle_fold_conditional [OF _ b(3)] by simp
  show ?thesis
  proof (cases isFragment)
    case True
    then show ?thesis using 1 b(5) by (simp add: isConditionalDependency_def)
  next
    case False
    let ?a0 = "a\<lparr> info := i, conditional := False, promises := [], busy := True \<rparr>"
    from 1 b(5) False
    have "isConditionalDependency (info (analyzeViewRootNode env root ?a0)) d" by simp
    then have "isConditionalDependency (info ?a0) d"
      by (rule analyzeViewRootNode_conditional) simp
    then show ?thesis by simp
  qed
qed

subsection \<open>The example fragments\<close>

lemmas analyzer_defs = analyzeFragment_def analyzeView_def analyze_def analyze_begin_def
  analyze_settle_def settle_findResource_def onResourceFound_def analyzer_addDependency_def
  addReferenced_def analyzeViewRootNode_def analyzeChildren_def
  candidateModule_def getAttribute_def
  PATTERN_LIBRARY_NAMESPACES_def TEMPLATING_CONDITONAL_TAGS_def segmentStart_def segmentPart_def
  TEMPLATING_NAMESPACE_def XHTML_NAMESPACE_def SVG_NAMESPACE_def
  COMPONENTCONTAINER_MODULE_def FRAGMENTDEFINITION_MODULE_def FRAGMENT_MODULE_def
  HTMLVIEW_MODULE_def JSVIEW_MODULE_def JSONVIEW_MODULE_def XMLVIEW_MODULE_def
  XMLVIEW_CONTROLLERNAME_ATTRIBUTE_def XMLVIEW_RESBUNDLENAME_ATTRIBUTE_def
  ex_env_def ex_env_empty_pool_def ex_parseString_def ex_fragment_def ex_fragment_both_def
  ex_if_def ex_button_def ex_pool_def legacyName_def idle_analyzer_def ModuleInfo_create_def
  isConditionalDependency_def isUnconditionalDependency_def found_def Let_def

lemma ex_in_flight:
  "analyze_begin ex_env ''<FragmentDefinition><if><Button/></if></FragmentDefinition>''
       (ModuleInfo_create ''my/view/Main.fragment.xml'') True idle_analyzer
     = (Pending,
        \<lparr> info = ModuleInfo ''my/view/Main.fragment.xml'' [] [''sap/ui/core/Fragment.js''] False [],
          conditional = False,
          promises = [(''sap/m/Button.js'', ex_button)],
          busy = True \<rparr>)"
  by (simp add: analyzer_defs)


section \<open>The claims\<close>

text \<open>
  C3. In a resolved bundle definition whose sections all have their module array,
  \<^verbatim>\<open>containsCore\<close> is true exactly when some Raw or Require section lists the core
  module, \<^verbatim>\<open>containsGlobal\<close> exactly when some Raw section lists the legacy global
  module, and \<^verbatim>\<open>executes(name)\<close> exactly when some Raw or Require section lists
  \<open>name\<close>. Each query is a function of the sections and the store as they are at the
  call, and returns a truth value only: nothing is written.
\<close>

theorem queries_characterised:
  assumes "\<forall>s\<in>set (sections b). deref h (modules s) \<noteq> None"
  shows "containsCore consts h b =
           Inr (\<exists>s\<in>set (sections b).
                  (ResolvedSection_mode s = Raw \<or> ResolvedSection_mode s = Require)
                  \<and> MODULE__SAP_UI_CORE_CORE consts \<in> set (listed h s))
       \<and> containsGlobal consts h b =
           Inr (\<exists>s\<in>set (sections b).
                  ResolvedSection_mode s = Raw
                  \<and> MODULE__JQUERY_SAP_GLOBAL consts \<in> set (listed h s))
       \<and> executes h b moduleName =
           Inr (\<exists>s\<in>set (sections b).
                  (ResolvedSection_mode s = Raw \<or> ResolvedSection_mode s = Require)
                  \<and> moduleName \<in> set (listed h s))"
proof (intro conjI)
  show "containsCore consts h b =
           Inr (\<exists>s\<in>set (sections b).
                  (ResolvedSection_mode s = Raw \<or> ResolvedSection_mode s = Require)
                  \<and> MODULE__SAP_UI_CORE_CORE consts \<in> set (listed h s))"
    unfolding containsCore_def
    by (rule some_section_total) (use assms in \<open>simp add: lists_module_assigned\<close>)
  show "containsGlobal consts h b =
           Inr (\<exists>s\<in>set (sections b).
                  ResolvedSection_mode s = Raw
                  \<and> MODULE__JQUERY_SAP_GLOBAL consts \<in> set (listed h s))"
    unfolding containsGlobal_def
    by (rule some_section_total) (use assms in \<open>simp add: lists_module_assigned\<close>)
  show "executes h b moduleName =
           Inr (\<exists>s\<in>set (sections b).
                  (ResolvedSection_mode s = Raw \<or> ResolvedSection_mode s = Require)
                  \<and> moduleName \<in> set (listed h s))"
    unfolding executes_def
    by (rule some_section_total) (use assms in \<open>simp add: lists_module_assigned\<close>)
qed

theorem queries_characterised_witness:
  "list_all (\<lambda>s. deref ex_store (modules s) \<noteq> None) (sections ex_bundle)
   \<and> containsCore ex_constants ex_store ex_bundle = Inr True
   \<and> containsGlobal ex_constants ex_store ex_bundle = Inr False
   \<and> executes ex_store ex_bundle ''my/App.js'' = Inr True"
  using queries_characterised [of ex_bundle ex_store ex_constants "''my/App.js''"]
  by (simp add: ex_defs)

text \<open>
  What does hold of a Preload section: its list is copied and the copy sorted before
  anything is fetched, the lookups are issued in the sorted order, and each fetched
  Module Info is attached when its lookup settles. So the submodules stand in the sorted
  order when the lookups settle in the order issued.
\<close>

lemma preload_lookups_sorted:
  assumes "ResolvedSection_mode s = Preload" and "rejection r = None"
      and "deref (heap r) (modules s) = Some ms"
  shows "requested (processSection rp picks r s) = requested r @ sort ms"
    and "subModules (bundleInfo (processSection rp picks r s))
           = subModules (bundleInfo r) @ fetched rp (settleOrder picks (sort ms))"
    and "subModules (bundleInfo (processSection rp [] r s))
           = subModules (bundleInfo r) @ fetched rp (sort ms)"
  using assms by (simp_all add: processSection_Preload fetchAll_sel)

text \<open>
  C2. The claim: the Module Infos fetched for a Preload section are attached in the
  sorted order, so that two declared orders of the same modules give the same
  submodules. The code sorts a copy of the list and issues the lookups in that order,
  but \<^verbatim>\<open>addSubModule\<close> is called in the callback of each lookup, that is, in the order
  in which the lookups settle. The Preload section below lists lib and Helper; the
  lookups are issued in the order Helper, lib; lib settles first, and the submodules
  are lib, Helper. The bundle that declares the same two modules the other way round,
  run with the lookups settling in the order issued, gets Helper, lib.
\<close>

theorem preload_order_lost:
  "requested (createModuleInfo_run ex_pool ex_second_first ex_store ex_bundle)
     = [''my/Helper.js'', ''my/lib.js'']
   \<and> sort (listed ex_store (section_of Preload 2)) = [''my/Helper.js'', ''my/lib.js'']
   \<and> createModuleInfo ex_pool ex_second_first ex_store ex_bundle =
       Inr (ModuleInfo ''my/bundle.js''
              [(''sap/ui/core/Core.js'', False), (''my/App.js'', False)] [] False
              [ModuleInfo ''my/lib.js'' [] [] False [], ModuleInfo ''my/Helper.js'' [] [] False []])
   \<and> createModuleInfo ex_pool ex_in_order ex_store ex_bundle_reordered =
       Inr (ModuleInfo ''my/bundle.js''
              [(''sap/ui/core/Core.js'', False), (''my/App.js'', False)] [] False
              [ModuleInfo ''my/Helper.js'' [] [] False [], ModuleInfo ''my/lib.js'' [] [] False []])"
  by (simp add: run_defs ex_defs)

text \<open>
  What does hold of Raw sections: when resolution delivers a Module Info, it is marked as
  a raw module exactly when some Raw section lists at least one module; a Raw section's
  lookups are issued in the declared order and its array is left as it is.
\<close>

lemma raw_flag_iff:
  assumes "\<forall>s\<in>set (sections b). deref h (modules s) \<noteq> None"
      and "createModuleInfo rp timing h b = Inr i"
  shows "rawModule i = (\<exists>s\<in>set (sections b). ResolvedSection_mode s = Raw \<and> listed h s \<noteq> [])"
proof -
  from assms(2)
  have rn: "rejection (resolveSections rp timing (createModuleInfo_start h b) (sections b)) = None"
    and i: "i = bundleInfo (resolveSections rp timing (createModuleInfo_start h b) (sections b))"
    by (simp_all add: createModuleInfo_Inr_iff createModuleInfo_run_def)
  have hp: "heap (createModuleInfo_start h b) = h @ []" by simp
  show ?thesis
    unfolding i using resolveSections_rawModule [OF assms(1) hp rn] by simp
qed

lemma raw_lookups_as_declared:
  assumes "ResolvedSection_mode s = Raw" and "rejection r = None"
      and "deref (heap r) (modules s) = Some ms"
  shows "requested (processSection rp picks r s) = requested r @ ms"
    and "heap (processSection rp picks r s) = heap r"
    and "subModules (bundleInfo (processSection rp picks r s))
           = subModules (bundleInfo r) @ fetched rp (settleOrder picks ms)"
    and "subModules (bundleInfo (processSection rp [] r s))
           = subModules (bundleInfo r) @ fetched rp ms"
  using assms by (simp_all add: processSection_Raw fetchAll_sel)

text \<open>
  C4. The claim: a bundle is marked raw exactly when a Raw section lists a module, and
  the modules of a Raw section are attached as submodules in their declared order. The
  first part holds (\<open>raw_flag_iff\<close>). The second does not: \<^verbatim>\<open>addSubModule\<close> is called in
  the callback of each lookup, in the order in which the lookups settle. The Raw
  section below declares raw2 before raw1 and the lookups are issued in that order;
  raw1 settles first, and the submodules are raw1, raw2.
\<close>

theorem raw_order_lost:
  "listed ex_store (section_of Raw 4) = [''my/raw2.js'', ''my/raw1.js'']
   \<and> requested (createModuleInfo_run ex_pool ex_raw_second_first ex_store ex_bundle_raw)
       = [''my/raw2.js'', ''my/raw1.js'']
   \<and> createModuleInfo ex_pool ex_raw_second_first ex_store ex_bundle_raw =
       Inr (ModuleInfo ''my/raw-bundle.js''
              [(''sap/ui/core/Core.js'', False), (''my/App.js'', False)] [] True
              [ModuleInfo ''my/raw1.js'' [] [] False [], ModuleInfo ''my/raw2.js'' [] [] False []])"
  by (simp add: run_defs ex_defs)

text \<open>
  C5 (as amended). \<^verbatim>\<open>createModuleInfo\<close> processes the sections in declared order, each
  when the work of the one before it is done. When every module of the Raw and Preload
  sections is found, the promise resolves with exactly this: the bundle's name; as
  direct dependencies, all unconditional, the modules of the Require sections in
  declared order, except the bundle's own name; the raw flag; and the submodules of
  the Raw and Preload sections, section after section in declared order (the order
  inside one section is the matter of C2 and C4). The lookups
  issued are those of the Raw and Preload sections, section after section: none for a
  Provided section, none for a Require section, whose modules the pool need not know.
  When a module of a Raw or Preload section is not found and the sections before it
  succeed, the promise is rejected, and the lookups issued are those of the sections up
  to and including that one: no later section has started. A Provided section leaves
  the state of the resolution as it is.
\<close>

theorem sections_in_declared_order:
  assumes "\<forall>s\<in>set (sections b). deref h (modules s) \<noteq> None"
  shows "((\<forall>s\<in>set (sections b).
             ResolvedSection_mode s = Raw \<or> ResolvedSection_mode s = Preload \<longrightarrow>
             (\<forall>m\<in>set (listed h s). \<exists>i. getModuleInfo rp m = Inr i)) \<longrightarrow>
          createModuleInfo rp timing h b =
            Inr (ModuleInfo (name b)
                   (requiredDependencies (name b) (concat (map (required h) (sections b))))
                   []
                   (\<exists>s\<in>set (sections b). ResolvedSection_mode s = Raw \<and> listed h s \<noteq> [])
                   (attached rp h timing (sections b)))
          \<and> requested (createModuleInfo_run rp timing h b)
              = concat (map (issued h) (sections b)))
       \<and> (sections b = before @ s # after
          \<and> (\<forall>s\<in>set before.
                ResolvedSection_mode s = Raw \<or> ResolvedSection_mode s = Preload \<longrightarrow>
                (\<forall>m\<in>set (listed h s). \<exists>i. getModuleInfo rp m = Inr i))
          \<and> (ResolvedSection_mode s = Raw \<or> ResolvedSection_mode s = Preload)
          \<and> m \<in> set (listed h s) \<and> getModuleInfo rp m = Inl e \<longrightarrow>
          (\<exists>e'. createModuleInfo rp timing h b = Inl e')
          \<and> requested (createModuleInfo_run rp timing h b)
              = concat (map (issued h) (before @ [s])))
       \<and> (createModuleInfo rp timing h b = Inr i \<longrightarrow>
          (\<forall>s\<in>set (sections b). ResolvedSection_mode s = Require \<longrightarrow>
             (\<forall>m\<in>set (listed h s). m \<noteq> name b \<longrightarrow> isUnconditionalDependency i m)))
       \<and> (ResolvedSection_mode s' = Provided \<longrightarrow> processSection rp picks r s' = r)"
proof (intro conjI impI)
  assume ok: "\<forall>s\<in>set (sections b).
             ResolvedSection_mode s = Raw \<or> ResolvedSection_mode s = Preload \<longrightarrow>
             (\<forall>m\<in>set (listed h s). \<exists>i. getModuleInfo rp m = Inr i)"
  show "createModuleInfo rp timing h b =
            Inr (ModuleInfo (name b)
                   (requiredDependencies (name b) (concat (map (required h) (sections b))))
                   []
                   (\<exists>s\<in>set (sections b). ResolvedSection_mode s = Raw \<and> listed h s \<noteq> [])
                   (attached rp h timing (sections b)))"
    by (rule createModuleInfo_success(1) [OF assms ok])
  show "requested (createModuleInfo_run rp timing h b) = concat (map (issued h) (sections b))"
    by (rule createModuleInfo_success(2) [OF assms ok])
next
  assume a: "sections b = before @ s # after
          \<and> (\<forall>s\<in>set before.
                ResolvedSection_mode s = Raw \<or> ResolvedSection_mode s = Preload \<longrightarrow>
                (\<forall>m\<in>set (listed h s). \<exists>i. getModuleInfo rp m = Inr i))
          \<and> (ResolvedSection_mode s = Raw \<or> ResolvedSection_mode s = Preload)
          \<and> m \<in> set (listed h s) \<and> getModuleInfo rp m = Inl e"
  have wf: "\<forall>s\<in>set (before @ [s]). deref h (modules s) \<noteq> None"
    using assms a by simp
  have hp: "heap (createModuleInfo_start h b) = h @ []" by simp
  have r0: "rejection (createModuleInfo_start h b) = None" by simp
  have okb: "\<forall>s\<in>set before.
                ResolvedSection_mode s = Raw \<or> ResolvedSection_mode s = Preload \<longrightarrow>
                (\<forall>m\<in>set (listed h s). \<exists>i. getModuleInfo rp m = Inr i)"
    using a by blast
  have fs: "ResolvedSection_mode s = Raw \<or> ResolvedSection_mode s = Preload"
    and ms: "m \<in> set (listed h s)" and me: "getModuleInfo rp m = Inl e"
    using a by blast+
  note st = resolveSections_stops [OF wf hp r0 okb fs ms me, of timing after]
  have run: "createModuleInfo_run rp timing h b
               = resolveSections rp timing (createModuleInfo_start h b) (before @ s # after)"
    using a by (simp add: createModuleInfo_run_def)
  from st obtain e' where "rejection (createModuleInfo_run rp timing h b) = Some e'"
    unfolding run by auto
  then show "\<exists>e'. createModuleInfo rp timing h b = Inl e'"
    by (auto simp: createModuleInfo_Inl_iff)
  show "requested (createModuleInfo_run rp timing h b) = concat (map (issued h) (before @ [s]))"
    unfolding run using st by simp
next
  assume a: "createModuleInfo rp timing h b = Inr i"
  then have rn: "rejection (resolveSections rp timing (createModuleInfo_start h b) (sections b)) = None"
    and i: "i = bundleInfo (resolveSections rp timing (createModuleInfo_start h b) (sections b))"
    by (simp_all add: createModuleInfo_Inr_iff createModuleInfo_run_def)
  have hp: "heap (createModuleInfo_start h b) = h @ []" by simp
  show "\<forall>s\<in>set (sections b). ResolvedSection_mode s = Require \<longrightarrow>
           (\<forall>m\<in>set (listed h s). m \<noteq> name b \<longrightarrow> isUnconditionalDependency i m)"
  proof (intro ballI impI)
    fix s m
    assume "s \<in> set (sections b)" "ResolvedSection_mode s = Require"
           "m \<in> set (listed h s)" "m \<noteq> name b"
    then show "isUnconditionalDependency i m"
      unfolding i
      using resolveSections_required [OF assms hp rn, of s m] by simp
  qed
next
  assume "ResolvedSection_mode s' = Provided"
  then show "processSection rp picks r s' = r" by (rule processSection_Provided)
qed

theorem sections_in_declared_order_witness:
  "createModuleInfo ex_pool ex_second_first ex_store ex_bundle =
     Inr (ModuleInfo ''my/bundle.js''
            [(''sap/ui/core/Core.js'', False), (''my/App.js'', False)] [] False
            [ModuleInfo ''my/lib.js'' [] [] False [], ModuleInfo ''my/Helper.js'' [] [] False []])
   \<and> requested (createModuleInfo_run ex_pool ex_second_first ex_store ex_bundle)
       = [''my/Helper.js'', ''my/lib.js'']
   \<and> createModuleInfo ex_pool_missing ex_in_order ex_store ex_bundle_requires =
       Inr (ModuleInfo ''my/bundle.js''
              [(''my/lib.js'', False), (''my/Helper.js'', False)] [] False [])
   \<and> requested (createModuleInfo_run ex_pool_missing ex_in_order ex_store ex_bundle_requires) = []
   \<and> requested (createModuleInfo_run ex_pool_missing ex_in_order ex_store ex_bundle_then_raw)
       = [''my/Helper.js'', ''my/lib.js'']
   \<and> isUnconditionalDependency
        (ModuleInfo ''my/bundle.js''
            [(''sap/ui/core/Core.js'', False), (''my/App.js'', False)] [] False
            [ModuleInfo ''my/lib.js'' [] [] False [], ModuleInfo ''my/Helper.js'' [] [] False []])
        ''my/App.js''"
proof -
  let ?lost = "PoolError ''resource not found in pool''"
  let ?i = "ModuleInfo ''my/bundle.js''
              [(''sap/ui/core/Core.js'', False), (''my/App.js'', False)] [] False
              [ModuleInfo ''my/lib.js'' [] [] False [], ModuleInfo ''my/Helper.js'' [] [] False []]"
  have wf1: "\<forall>s\<in>set (sections ex_bundle). deref ex_store (modules s) \<noteq> None"
    and wf2: "\<forall>s\<in>set (sections ex_bundle_requires). deref ex_store (modules s) \<noteq> None"
    and wf3: "\<forall>s\<in>set (sections ex_bundle_then_raw). deref ex_store (modules s) \<noteq> None"
    by (simp_all add: ex_defs)
  note t1 = sections_in_declared_order
              [OF wf1, where rp = ex_pool and timing = ex_second_first and i = ?i
                 and before = "[]" and s = "section_of Provided 0" and after = "[]"
                 and m = "[]" and e = TypeError and s' = "section_of Provided 0"
                 and picks = "[]" and r = "createModuleInfo_start ex_store ex_bundle"]
  note t2 = sections_in_declared_order
              [OF wf2, where rp = ex_pool_missing and timing = ex_in_order and i = ?i
                 and before = "[]" and s = "section_of Provided 0" and after = "[]"
                 and m = "[]" and e = TypeError and s' = "section_of Provided 0"
                 and picks = "[]" and r = "createModuleInfo_start ex_store ex_bundle"]
  note t3 = sections_in_declared_order
              [OF wf3, where rp = ex_pool_missing and timing = ex_in_order and i = ?i
                 and before = "[]" and s = "section_of Preload 2"
                 and after = "[section_of Raw 4]"
                 and m = "''my/lib.js''" and e = ?lost and s' = "section_of Provided 0"
                 and picks = "[]" and r = "createModuleInfo_start ex_store ex_bundle"]
  have ok1: "\<forall>s\<in>set (sections ex_bundle).
             ResolvedSection_mode s = Raw \<or> ResolvedSection_mode s = Preload \<longrightarrow>
             (\<forall>m\<in>set (listed ex_store s). \<exists>i. getModuleInfo ex_pool m = Inr i)"
    by (simp add: ex_pool_def)
  have ok2: "\<forall>s\<in>set (sections ex_bundle_requires).
             ResolvedSection_mode s = Raw \<or> ResolvedSection_mode s = Preload \<longrightarrow>
             (\<forall>m\<in>set (listed ex_store s). \<exists>i. getModuleInfo ex_pool_missing m = Inr i)"
    by (simp add: ex_defs)
  have a: "createModuleInfo ex_pool ex_second_first ex_store ex_bundle = Inr ?i"
    and b: "requested (createModuleInfo_run ex_pool ex_second_first ex_store ex_bundle)
              = [''my/Helper.js'', ''my/lib.js'']"
    using t1 ok1
    by (simp_all add: ex_defs ex_pool_def ex_second_first_def requiredDependencies_def
          required_def issued_def ModuleInfo_create_def)
  have c: "createModuleInfo ex_pool_missing ex_in_order ex_store ex_bundle_requires =
             Inr (ModuleInfo ''my/bundle.js''
                    [(''my/lib.js'', False), (''my/Helper.js'', False)] [] False [])"
    and d: "requested (createModuleInfo_run ex_pool_missing ex_in_order ex_store
              ex_bundle_requires) = []"
    using t2 ok2
    by (simp_all add: ex_defs ex_in_order_def requiredDependencies_def
          required_def issued_def)
  have h3: "sections ex_bundle_then_raw = [] @ section_of Preload 2 # [section_of Raw 4]
          \<and> (\<forall>s\<in>set [].
                ResolvedSection_mode s = Raw \<or> ResolvedSection_mode s = Preload \<longrightarrow>
                (\<forall>m\<in>set (listed ex_store s). \<exists>i. getModuleInfo ex_pool_missing m = Inr i))
          \<and> (ResolvedSection_mode (section_of Preload 2) = Raw
              \<or> ResolvedSection_mode (section_of Preload 2) = Preload)
          \<and> ''my/lib.js'' \<in> set (listed ex_store (section_of Preload 2))
          \<and> getModuleInfo ex_pool_missing ''my/lib.js'' = Inl ?lost"
    by (simp add: ex_defs ex_pool_missing_def ex_pool_def)
  have "requested (createModuleInfo_run ex_pool_missing ex_in_order ex_store ex_bundle_then_raw)
          = concat (map (issued ex_store) ([] @ [section_of Preload 2]))"
    using t3 h3 by blast
  then have e: "requested (createModuleInfo_run ex_pool_missing ex_in_order ex_store
                  ex_bundle_then_raw) = [''my/Helper.js'', ''my/lib.js'']"
    by (simp add: issued_def ex_defs)
  have "\<forall>s\<in>set (sections ex_bundle). ResolvedSection_mode s = Require \<longrightarrow>
           (\<forall>m\<in>set (listed ex_store s). m \<noteq> name ex_bundle \<longrightarrow> isUnconditionalDependency ?i m)"
    using t1 a by blast
  then have f: "isUnconditionalDependency ?i ''my/App.js''"
    by (simp add: ex_defs)
  show ?thesis using a b c d e f by simp
qed

text \<open>
  C5 as stated fails where it says that every listed module becomes a dependency: a
  bundle named \<^verbatim>\<open>my/App.js\<close> whose Require section lists \<^verbatim>\<open>my/App.js\<close> resolves without
  that dependency, since a Module Info never depends on itself.
\<close>

theorem require_self_counterexample:
  "''my/App.js'' \<in> set (listed ex_store (section_of Require 1))
   \<and> createModuleInfo ex_pool ex_in_order ex_store ex_bundle_self =
       Inr (ModuleInfo ''my/App.js'' [(''sap/ui/core/Core.js'', False)] [] False [])
   \<and> \<not> isDependency (ModuleInfo ''my/App.js'' [(''sap/ui/core/Core.js'', False)] [] False [])
         ''my/App.js''"
  by (simp add: run_defs ex_defs isDependency_def)



text \<open>
  C10. \<^verbatim>\<open>createModuleInfo\<close> changes no array that existed before the call: the store
  after the call is the store before it followed by the sorted copies of the Preload
  lists, so every section lists after the call exactly what it listed before. A second
  call on the store the first one left gives what it would have given on the store as
  it was before the first (its lookups settling in the same order), and each call
  starts from a new Module Info that carries the bundle's name and nothing else.
\<close>

theorem definition_not_mutated:
  "(\<exists>ext. heap (createModuleInfo_run rp timing h b) = h @ ext)
   \<and> (\<forall>s\<in>set (sections b). \<forall>ms. deref h (modules s) = Some ms \<longrightarrow>
         deref (heap (createModuleInfo_run rp timing h b)) (modules s) = Some ms)
   \<and> ((\<forall>s\<in>set (sections b). deref h (modules s) \<noteq> None) \<longrightarrow>
         createModuleInfo rp timing' (heap (createModuleInfo_run rp timing h b)) b = createModuleInfo rp timing' h b)
   \<and> bundleInfo (createModuleInfo_start h b) = ModuleInfo_create (name b)"
proof -
  obtain ext where ext: "heap (createModuleInfo_run rp timing h b) = h @ ext"
    using resolveSections_heap [of rp timing "createModuleInfo_start h b" "sections b"]
    by (auto simp: createModuleInfo_run_def)
  have 1: "\<exists>ext. heap (createModuleInfo_run rp timing h b) = h @ ext" using ext by blast
  have 2: "\<forall>s\<in>set (sections b). \<forall>ms. deref h (modules s) = Some ms \<longrightarrow>
         deref (heap (createModuleInfo_run rp timing h b)) (modules s) = Some ms"
    unfolding ext by (simp add: deref_append)
  have 3: "(\<forall>s\<in>set (sections b). deref h (modules s) \<noteq> None) \<longrightarrow>
         createModuleInfo rp timing' (heap (createModuleInfo_run rp timing h b)) b = createModuleInfo rp timing' h b"
  proof
    assume wf: "\<forall>s\<in>set (sections b). deref h (modules s) \<noteq> None"
    have "list_all2 (same_members (h @ ext) h) (sections b) (sections b)"
      unfolding list_all2_same using wf by (simp add: same_members_grown)
    then show "createModuleInfo rp timing' (heap (createModuleInfo_run rp timing h b)) b = createModuleInfo rp timing' h b"
      unfolding ext by (intro createModuleInfo_same_members) simp_all
  qed
  show ?thesis using 1 2 3 by simp
qed

theorem definition_not_mutated_witness:
  "deref (heap (createModuleInfo_run ex_pool ex_second_first ex_store ex_bundle)) (Some 2)
     = Some [''my/lib.js'', ''my/Helper.js'']
   \<and> createModuleInfo ex_pool ex_in_order
         (heap (createModuleInfo_run ex_pool ex_second_first ex_store ex_bundle)) ex_bundle
     = createModuleInfo ex_pool ex_in_order ex_store ex_bundle"
  using definition_not_mutated [of ex_pool ex_second_first ex_store ex_bundle ex_in_order]
  by (simp add: ex_defs)

text \<open>
  C1. The claim: a dependency found by the pool whose node lies inside a templating
  \<^verbatim>\<open>if\<close> or \<^verbatim>\<open>repeat\<close> is recorded as conditional. The code sets \<^verbatim>\<open>this.conditional\<close> for
  the subtree and restores it on the way out, but \<^verbatim>\<open>_addDependency\<close> reads the flag
  when the callback of \<^verbatim>\<open>findResource\<close> runs, and that is after the traversal has
  returned and the flag is false again. For the fragment of the specification's own
  example (a FragmentDefinition holding an \<^verbatim>\<open>if\<close> that wraps a Button the pool knows) the
  analysis records the Button as an unconditional dependency, whenever the lookup
  settles.
\<close>

theorem conditional_flag_read_too_late:
  "analyzeFragment ex_env picks ''<FragmentDefinition><if><Button/></if></FragmentDefinition>''
       (ModuleInfo_create ''my/view/Main.fragment.xml'') idle_analyzer
     = (Resolved
          (ModuleInfo ''my/view/Main.fragment.xml'' [(''sap/m/Button.js'', False)]
             [''sap/ui/core/Fragment.js''] False []),
        \<lparr> info = ModuleInfo ''my/view/Main.fragment.xml'' [(''sap/m/Button.js'', False)]
                    [''sap/ui/core/Fragment.js''] False [],
          conditional = False,
          promises = [(''sap/m/Button.js'', ex_button)],
          busy = False \<rparr>)
   \<and> \<not> isConditionalDependency
         (ModuleInfo ''my/view/Main.fragment.xml'' [(''sap/m/Button.js'', False)]
            [''sap/ui/core/Fragment.js''] False [])
         ''sap/m/Button.js''"
  by (simp add: analyzer_defs settleOrder_single)



text \<open>
  C8. On an instance that is busy, \<^verbatim>\<open>analyzeView\<close> and \<^verbatim>\<open>analyzeFragment\<close> throw (they do
  not return a promise) and leave every field of the instance as it was; the analysis in
  flight settles exactly as it would have without the call.
\<close>

theorem busy_instance_throws:
  assumes "busy a"
  shows "analyzeView env picks xml i a = (Thrown AnalyzerBusy, a)
       \<and> analyzeFragment env picks xml i a = (Thrown AnalyzerBusy, a)
       \<and> analyze_settle env' picks' (snd (analyzeView env picks xml i a)) = analyze_settle env' picks' a
       \<and> analyze_settle env' picks' (snd (analyzeFragment env picks xml i a)) = analyze_settle env' picks' a"
  using assms
  by (simp add: analyzeView_def analyzeFragment_def analyze_def analyze_begin_busy)

theorem busy_instance_throws_witness:
  "busy (snd (analyze_begin ex_env
                ''<FragmentDefinition><if><Button/></if></FragmentDefinition>''
                (ModuleInfo_create ''my/view/Main.fragment.xml'') True idle_analyzer))
   \<and> analyzeView ex_env [] ''<FragmentDefinition><if><Button/></if><Button/></FragmentDefinition>''
         (ModuleInfo_create ''my/view/Other.view.xml'')
         (snd (analyze_begin ex_env
                ''<FragmentDefinition><if><Button/></if></FragmentDefinition>''
                (ModuleInfo_create ''my/view/Main.fragment.xml'') True idle_analyzer))
       = (Thrown AnalyzerBusy,
          \<lparr> info = ModuleInfo ''my/view/Main.fragment.xml'' [] [''sap/ui/core/Fragment.js''] False [],
            conditional = False,
            promises = [(''sap/m/Button.js'', ex_button)],
            busy = True \<rparr>)"
  using busy_instance_throws
          [where a = "snd (analyze_begin ex_env
                        ''<FragmentDefinition><if><Button/></if></FragmentDefinition>''
                        (ModuleInfo_create ''my/view/Main.fragment.xml'') True idle_analyzer)"
             and env = ex_env and env' = ex_env and picks = "[]" and picks' = "[]"
             and xml = "''<FragmentDefinition><if><Button/></if><Button/></FragmentDefinition>''"
             and i = "ModuleInfo_create ''my/view/Other.view.xml''"]
  by (simp add: ex_in_flight)

text \<open>
  C9. When the parser reports an error on a free instance, the promise is rejected with
  that error, the Module Info that was supplied is unchanged, the instance is no longer
  busy, and the next call on it does not throw.
\<close>

theorem parse_error_rejects:
  assumes "\<not> busy a" and "parseString env xml = Inl err"
  shows "analyzeView env picks xml i a
           = (Rejected err, a\<lparr> info := i, conditional := False, promises := [], busy := False \<rparr>)
       \<and> analyzeFragment env picks xml i a
           = (Rejected err, a\<lparr> info := i, conditional := False, promises := [], busy := False \<rparr>)
       \<and> info (snd (analyzeView env picks xml i a)) = i
       \<and> info (snd (analyzeFragment env picks xml i a)) = i
       \<and> \<not> busy (snd (analyzeView env picks xml i a))
       \<and> \<not> busy (snd (analyzeFragment env picks xml i a))
       \<and> fst (analyzeView env picks' xml' i' (snd (analyzeView env picks xml i a))) \<noteq> Thrown AnalyzerBusy
       \<and> fst (analyzeFragment env picks' xml' i' (snd (analyzeFragment env picks xml i a)))
            \<noteq> Thrown AnalyzerBusy"
proof -
  let ?a' = "a\<lparr> info := i, conditional := False, promises := [], busy := False \<rparr>"
  have v: "analyzeView env picks xml i a = (Rejected err, ?a')"
    using assms by (simp add: analyzeView_def analyze_def analyze_begin_parse_error)
  have f: "analyzeFragment env picks xml i a = (Rejected err, ?a')"
    using assms by (simp add: analyzeFragment_def analyze_def analyze_begin_parse_error)
  have free: "\<And>isFragment. fst (analyze env picks' xml' i' isFragment ?a') \<noteq> Thrown AnalyzerBusy"
    by (simp add: analyze_def analyze_begin_def analyze_settle_def Let_def split: sum.splits)
  show ?thesis
    using free [of False] free [of True]
    unfolding v f by (simp add: analyzeView_def analyzeFragment_def)
qed

theorem parse_error_rejects_witness:
  "analyzeFragment ex_env [] ''<FragmentDefinition>'' (ModuleInfo_create ''my/view/Main.fragment.xml'')
       idle_analyzer
     = (Rejected (ParseError ''Unclosed root tag''),
        \<lparr> info = ModuleInfo_create ''my/view/Main.fragment.xml'', conditional = False,
          promises = [], busy = False \<rparr>)
   \<and> fst (analyzeView ex_env []
             ''<FragmentDefinition><if><Button/></if></FragmentDefinition>''
             (ModuleInfo_create ''my/view/Main.view.xml'')
             (snd (analyzeView ex_env [] ''<FragmentDefinition>''
                     (ModuleInfo_create ''my/view/Main.fragment.xml'') idle_analyzer)))
       \<noteq> Thrown AnalyzerBusy"
proof -
  have h: "\<not> busy idle_analyzer"
          "parseString ex_env ''<FragmentDefinition>'' = Inl (ParseError ''Unclosed root tag'')"
    by (simp_all add: ex_env_def ex_parseString_def idle_analyzer_def)
  note t = parse_error_rejects
             [OF h, where picks = "[]" and picks' = "[]"
                and i = "ModuleInfo_create ''my/view/Main.fragment.xml''"
                and xml' = "''<FragmentDefinition><if><Button/></if></FragmentDefinition>''"
                and i' = "ModuleInfo_create ''my/view/Main.view.xml''"]
  have 1: "analyzeFragment ex_env [] ''<FragmentDefinition>''
             (ModuleInfo_create ''my/view/Main.fragment.xml'') idle_analyzer
     = (Rejected (ParseError ''Unclosed root tag''),
        \<lparr> info = ModuleInfo_create ''my/view/Main.fragment.xml'', conditional = False,
          promises = [], busy = False \<rparr>)"
    using t by (simp add: idle_analyzer_def)
  have 2: "fst (analyzeView ex_env []
             ''<FragmentDefinition><if><Button/></if></FragmentDefinition>''
             (ModuleInfo_create ''my/view/Main.view.xml'')
             (snd (analyzeView ex_env [] ''<FragmentDefinition>''
                     (ModuleInfo_create ''my/view/Main.fragment.xml'') idle_analyzer)))
       \<noteq> Thrown AnalyzerBusy"
    using t by blast
  show ?thesis using 1 2 by simp
qed

end
